theory Spec2Isabelle
  imports Main "HOL-Library.Log_Nat"
begin

section \<open>Data model: the job dictionaries of \<^verbatim>\<open>background_jobs\<close>\<close>

text \<open>
  A growth range is the Python list \<^verbatim>\<open>[min, max]\<close> stored under \<^verbatim>\<open>increase_range\<close>.
  Every creation path stores two numbers; anything that does not unpack into two
  numbers (wrong length, a value \<^verbatim>\<open>float()\<close> refuses) is \<open>Malformed\<close>.
\<close>

datatype increase_range = Increase rat rat | Malformed

text \<open>
  The reply of the panel as \<^verbatim>\<open>place_order\<close> returns it: the \<^verbatim>\<open>order\<close> field when the
  panel accepted the order, the \<^verbatim>\<open>error\<close> field otherwise.
\<close>

record response =
  order :: "string option"
  error :: "string option"

record order_info =
  o_timestamp :: string
  o_quantity :: int
  o_response :: response
  o_job_id :: string
  o_service_id :: string
  o_link :: string

text \<open>
  A job is a Python dict. The keys every creation path writes are plain fields; the keys
  only some paths write are options, where \<open>None\<close> stands for an absent key and for the
  value \<^verbatim>\<open>None\<close> alike (the code reads them with \<^verbatim>\<open>job.get\<close>, which does not tell the
  two apart).
\<close>

record job =
  job_id :: string
  user_id :: string
  api_url :: string
  api_key :: string
  service_id :: string
  link :: string
  quantity :: int
  increase_range :: increase_range
  frequency :: int
  next_run :: int
  started_at :: string
  stopped :: bool
  paused :: "bool option"
  bulk_group_id :: "string option"
  paused_at :: "string option"
  resumed_at :: "string option"
  stopped_at :: "string option"
  stopped_by :: "string option"
  stopped_reason :: "string option"
  orders :: "order_info list"
  error_count :: "int option"

section \<open>Job lifecycle operations (app.py, bot.py)\<close>

text \<open>
  The wall clock is read inside the loops, once per job that is touched:
  \<open>ts i\<close> is the formatted \<^verbatim>\<open>datetime.now()\<close> and \<open>clock i\<close> the \<^verbatim>\<open>int(time.time())\<close>
  read while the job at list position \<open>i\<close> is handled. The functions return the value
  the Python function returns together with the job list after the in-place updates.
\<close>

fun pause_job_from :: "(nat \<Rightarrow> string) \<Rightarrow> string \<Rightarrow> string \<Rightarrow> nat \<Rightarrow> job list \<Rightarrow> bool \<times> job list" where
  "pause_job_from ts jid uid i [] = (False, [])"
| "pause_job_from ts jid uid i (j # js) =
     (if job_id j = jid \<and> user_id j = uid
      then (True, j\<lparr>paused := Some True, paused_at := Some (ts i)\<rparr> # js)
      else (let (r, js') = pause_job_from ts jid uid (Suc i) js in (r, j # js')))"

definition pause_job :: "(nat \<Rightarrow> string) \<Rightarrow> string \<Rightarrow> string \<Rightarrow> job list \<Rightarrow> bool \<times> job list" where
  "pause_job ts jid uid jobs = pause_job_from ts jid uid 0 jobs"

fun resume_job_from ::
  "(nat \<Rightarrow> string) \<Rightarrow> (nat \<Rightarrow> int) \<Rightarrow> string \<Rightarrow> string \<Rightarrow> nat \<Rightarrow> job list \<Rightarrow> bool \<times> job list" where
  "resume_job_from ts clock jid uid i [] = (False, [])"
| "resume_job_from ts clock jid uid i (j # js) =
     (if job_id j = jid \<and> user_id j = uid
      then (True, j\<lparr>paused := Some False, resumed_at := Some (ts i), next_run := clock i\<rparr> # js)
      else (let (r, js') = resume_job_from ts clock jid uid (Suc i) js in (r, j # js')))"

definition resume_job ::
  "(nat \<Rightarrow> string) \<Rightarrow> (nat \<Rightarrow> int) \<Rightarrow> string \<Rightarrow> string \<Rightarrow> job list \<Rightarrow> bool \<times> job list" where
  "resume_job ts clock jid uid jobs = resume_job_from ts clock jid uid 0 jobs"

text \<open>
  \<^verbatim>\<open>stop_job(job_id, stopped_by=None)\<close> matches on the job id alone. \<^verbatim>\<open>if stopped_by:\<close>
  is false for \<^verbatim>\<open>None\<close> and for the empty string.
\<close>

fun stop_job_from :: "(nat \<Rightarrow> string) \<Rightarrow> string \<Rightarrow> string option \<Rightarrow> nat \<Rightarrow> job list \<Rightarrow> bool \<times> job list" where
  "stop_job_from ts jid sb i [] = (False, [])"
| "stop_job_from ts jid sb i (j # js) =
     (if job_id j = jid
      then (True,
            (let j1 = j\<lparr>stopped := True, stopped_at := Some (ts i)\<rparr>
             in (case sb of
                   None \<Rightarrow> j1
                 | Some b \<Rightarrow> if b = [] then j1 else j1\<lparr>stopped_by := Some b\<rparr>)) # js)
      else (let (r, js') = stop_job_from ts jid sb (Suc i) js in (r, j # js')))"

definition stop_job :: "(nat \<Rightarrow> string) \<Rightarrow> string \<Rightarrow> string option \<Rightarrow> job list \<Rightarrow> bool \<times> job list" where
  "stop_job ts jid sb jobs = stop_job_from ts jid sb 0 jobs"

subsection \<open>Bulk group operations\<close>

text \<open>
  The guard shared by the three bulk loops:
  \<^verbatim>\<open>job.get('bulk_group_id') == bulk_group_id and job['user_id'] == user_id and not job.get('stopped', False)\<close>.
\<close>

definition in_group :: "string option \<Rightarrow> string \<Rightarrow> job \<Rightarrow> bool" where
  "in_group g uid j = (bulk_group_id j = g \<and> user_id j = uid \<and> \<not> stopped j)"

fun pause_bulk_from :: "(nat \<Rightarrow> string) \<Rightarrow> string option \<Rightarrow> string \<Rightarrow> nat \<Rightarrow> job list \<Rightarrow> nat \<times> job list" where
  "pause_bulk_from ts g uid i [] = (0, [])"
| "pause_bulk_from ts g uid i (j # js) =
     (let (n, js') = pause_bulk_from ts g uid (Suc i) js
      in if in_group g uid j
         then (Suc n, j\<lparr>paused := Some True, paused_at := Some (ts i)\<rparr> # js')
         else (n, j # js'))"

definition pause_bulk_jobs :: "(nat \<Rightarrow> string) \<Rightarrow> string option \<Rightarrow> string \<Rightarrow> job list \<Rightarrow> nat \<times> job list" where
  "pause_bulk_jobs ts g uid jobs = pause_bulk_from ts g uid 0 jobs"

fun resume_bulk_from ::
  "(nat \<Rightarrow> string) \<Rightarrow> (nat \<Rightarrow> int) \<Rightarrow> string option \<Rightarrow> string \<Rightarrow> nat \<Rightarrow> job list \<Rightarrow> nat \<times> job list" where
  "resume_bulk_from ts clock g uid i [] = (0, [])"
| "resume_bulk_from ts clock g uid i (j # js) =
     (let (n, js') = resume_bulk_from ts clock g uid (Suc i) js
      in if in_group g uid j
         then (Suc n, j\<lparr>paused := Some False, resumed_at := Some (ts i), next_run := clock i\<rparr> # js')
         else (n, j # js'))"

definition resume_bulk_jobs ::
  "(nat \<Rightarrow> string) \<Rightarrow> (nat \<Rightarrow> int) \<Rightarrow> string option \<Rightarrow> string \<Rightarrow> job list \<Rightarrow> nat \<times> job list" where
  "resume_bulk_jobs ts clock g uid jobs = resume_bulk_from ts clock g uid 0 jobs"

fun stop_bulk_from :: "(nat \<Rightarrow> string) \<Rightarrow> string option \<Rightarrow> string \<Rightarrow> nat \<Rightarrow> job list \<Rightarrow> nat \<times> job list" where
  "stop_bulk_from ts g uid i [] = (0, [])"
| "stop_bulk_from ts g uid i (j # js) =
     (let (n, js') = stop_bulk_from ts g uid (Suc i) js
      in if in_group g uid j
         then (Suc n, j\<lparr>stopped := True, stopped_at := Some (ts i)\<rparr> # js')
         else (n, j # js'))"

definition stop_bulk_jobs :: "(nat \<Rightarrow> string) \<Rightarrow> string option \<Rightarrow> string \<Rightarrow> job list \<Rightarrow> nat \<times> job list" where
  "stop_bulk_jobs ts g uid jobs = stop_bulk_from ts g uid 0 jobs"

text \<open>What each bulk operation writes into a job of the group, at list position \<open>i\<close>.\<close>

definition paused_at_pos :: "(nat \<Rightarrow> string) \<Rightarrow> nat \<Rightarrow> job \<Rightarrow> job" where
  "paused_at_pos ts i j = j\<lparr>paused := Some True, paused_at := Some (ts i)\<rparr>"

definition resumed_at_pos :: "(nat \<Rightarrow> string) \<Rightarrow> (nat \<Rightarrow> int) \<Rightarrow> nat \<Rightarrow> job \<Rightarrow> job" where
  "resumed_at_pos ts clock i j = j\<lparr>paused := Some False, resumed_at := Some (ts i), next_run := clock i\<rparr>"

definition stopped_at_pos :: "(nat \<Rightarrow> string) \<Rightarrow> nat \<Rightarrow> job \<Rightarrow> job" where
  "stopped_at_pos ts i j = j\<lparr>stopped := True, stopped_at := Some (ts i)\<rparr>"

text \<open>An example job, used to run the definitions on concrete inputs.\<close>

definition job0 :: job where
  "job0 = \<lparr>job_id = ''job_a'', user_id = ''alice'', api_url = ''https://panel.example/api'',
           api_key = ''k'', service_id = ''101'', link = ''https://example.org/p/1'',
           quantity = 100, increase_range = Increase 10 20, frequency = 5, next_run = 1000,
           started_at = ''2024-01-01 00:00:00'', stopped = False, paused = None,
           bulk_group_id = None, paused_at = None, resumed_at = None, stopped_at = None,
           stopped_by = None, stopped_reason = None, orders = [], error_count = None\<rparr>"

definition ts0 :: "nat \<Rightarrow> string" where
  "ts0 i = ''2024-01-02 03:04:05''"

definition clock0 :: "nat \<Rightarrow> int" where
  "clock0 i = 2000"

definition group_jobs :: "job list" where
  "group_jobs = [job0\<lparr>bulk_group_id := Some ''bulk_1''\<rparr>,
                 job0\<lparr>job_id := ''job_b''\<rparr>,
                 job0\<lparr>job_id := ''job_c'', bulk_group_id := Some ''bulk_1'', stopped := True\<rparr>]"

text \<open>The scheduler's test that a job is due: \<^verbatim>\<open>now >= job.get('next_run', 0)\<close>.\<close>

definition is_due :: "int \<Rightarrow> job \<Rightarrow> bool" where
  "is_due now j = (next_run j \<le> now)"

definition paused_jobs :: "job list" where
  "paused_jobs = [job0\<lparr>job_id := ''job_b''\<rparr>,
                  job0\<lparr>paused := Some True, paused_at := Some ''2024-01-01 09:00:00'',
                        frequency := 1440, next_run := 90000\<rparr>]"

definition stopped_job :: job where
  "stopped_job = job0\<lparr>stopped := True, stopped_at := Some ''2024-01-01 10:00:00'',
                       stopped_by := Some ''alice''\<rparr>"

section \<open>Job creation (bot.py \<^verbatim>\<open>create_jobs_from_telegram\<close>, app.py \<^verbatim>\<open>setup_automation\<close>)\<close>

text \<open>The Python exceptions the modelled code can raise, with the text \<^verbatim>\<open>str(e)\<close> gives.\<close>

datatype py_error = IndexError | ValueError string | OverflowError string

fun str_error :: "py_error \<Rightarrow> string" where
  "str_error IndexError = ''list index out of range''"
| "str_error (ValueError m) = m"
| "str_error (OverflowError m) = m"

text \<open>
  \<^verbatim>\<open>xs[i] if i < len(xs) else xs[0]\<close>: beyond the list's length the first element is
  taken, and \<^verbatim>\<open>xs[0]\<close> of an empty list raises \<^verbatim>\<open>IndexError\<close>.
\<close>

definition pick :: "'a list \<Rightarrow> nat \<Rightarrow> py_error + 'a" where
  "pick xs i = (if i < length xs then Inr (xs ! i)
                else (case xs of [] \<Rightarrow> Inl IndexError | x # _ \<Rightarrow> Inr x))"

text \<open>
  The session data handed to \<^verbatim>\<open>create_jobs_from_telegram\<close>. The four lists are the
  non-blank lines of the user's replies. The numeric fields hold the result of the
  conversions \<^verbatim>\<open>int(...)\<close> and \<^verbatim>\<open>float(...)\<close> at the head of the function, \<open>None\<close> when
  the conversion raises.
\<close>

record job_data =
  api_urls :: "string list"
  api_keys :: "string list"
  target_links :: "string list"
  service_ids :: "string list"
  jd_quantity :: "int option"
  jd_increase_min :: "rat option"
  jd_increase_max :: "rat option"
  jd_frequency :: "int option"

text \<open>
  A job as the creation paths build it: \<open>ids i\<close> is the fresh \<^verbatim>\<open>uuid4\<close> id, \<open>clock i\<close> the
  \<^verbatim>\<open>int(time.time())\<close> and \<open>ts i\<close> the formatted \<^verbatim>\<open>datetime.now()\<close> read while the \<open>i\<close>-th
  job of the request is built. The Telegram path and the plain web path write neither
  \<^verbatim>\<open>paused\<close> nor \<^verbatim>\<open>bulk_group_id\<close>.
\<close>

definition new_job ::
  "(nat \<Rightarrow> string) \<Rightarrow> (nat \<Rightarrow> int) \<Rightarrow> (nat \<Rightarrow> string) \<Rightarrow> nat \<Rightarrow> string \<Rightarrow> string \<Rightarrow> string \<Rightarrow>
   string \<Rightarrow> string \<Rightarrow> int \<Rightarrow> rat \<Rightarrow> rat \<Rightarrow> int \<Rightarrow> job" where
  "new_job ids clock ts i uid url key sid lnk q lo hi freq =
     \<lparr>job_id = ids i, user_id = uid, api_url = url, api_key = key, service_id = sid,
      link = lnk, quantity = q, increase_range = Increase lo hi, frequency = freq,
      next_run = clock i, started_at = ts i, stopped = False, paused = None,
      bulk_group_id = None, paused_at = None, resumed_at = None, stopped_at = None,
      stopped_by = None, stopped_reason = None, orders = [], error_count = None\<rparr>"

definition telegram_job ::
  "(nat \<Rightarrow> string) \<Rightarrow> (nat \<Rightarrow> int) \<Rightarrow> (nat \<Rightarrow> string) \<Rightarrow> string \<Rightarrow> job_data \<Rightarrow>
   int \<Rightarrow> rat \<Rightarrow> rat \<Rightarrow> int \<Rightarrow> nat \<Rightarrow> py_error + job" where
  "telegram_job ids clock ts uid jd q lo hi freq i =
     (case pick (api_urls jd) i of Inl e \<Rightarrow> Inl e | Inr url \<Rightarrow>
      case pick (api_keys jd) i of Inl e \<Rightarrow> Inl e | Inr key \<Rightarrow>
      case pick (service_ids jd) i of Inl e \<Rightarrow> Inl e | Inr sid \<Rightarrow>
      case pick (target_links jd) i of Inl e \<Rightarrow> Inl e | Inr lnk \<Rightarrow>
      Inr (new_job ids clock ts i uid url key sid lnk q lo hi freq))"

text \<open>The loop \<^verbatim>\<open>for i in range(max_jobs)\<close>: the first exception ends it.\<close>

fun telegram_jobs ::
  "(nat \<Rightarrow> string) \<Rightarrow> (nat \<Rightarrow> int) \<Rightarrow> (nat \<Rightarrow> string) \<Rightarrow> string \<Rightarrow> job_data \<Rightarrow>
   int \<Rightarrow> rat \<Rightarrow> rat \<Rightarrow> int \<Rightarrow> nat list \<Rightarrow> py_error + job list" where
  "telegram_jobs ids clock ts uid jd q lo hi freq [] = Inr []"
| "telegram_jobs ids clock ts uid jd q lo hi freq (i # is) =
     (case telegram_job ids clock ts uid jd q lo hi freq i of
        Inl e \<Rightarrow> Inl e
      | Inr j \<Rightarrow>
          (case telegram_jobs ids clock ts uid jd q lo hi freq is of
             Inl e \<Rightarrow> Inl e
           | Inr js \<Rightarrow> Inr (j # js)))"

definition max_jobs :: "job_data \<Rightarrow> nat" where
  "max_jobs jd =
     (let m = max (length (api_urls jd)) (max (length (target_links jd)) (length (service_ids jd)))
      in if m > 10 then 10 else m)"

text \<open>
  \<^verbatim>\<open>create_jobs_from_telegram\<close> returns the number of jobs created and extends
  \<^verbatim>\<open>background_jobs\<close>; any exception is caught, 0 is returned and nothing is added.
\<close>

definition create_jobs_from_telegram ::
  "(nat \<Rightarrow> string) \<Rightarrow> (nat \<Rightarrow> int) \<Rightarrow> (nat \<Rightarrow> string) \<Rightarrow> string \<Rightarrow> job_data \<Rightarrow> job list \<Rightarrow>
   nat \<times> job list" where
  "create_jobs_from_telegram ids clock ts uid jd jobs =
     (case (jd_quantity jd, jd_increase_min jd, jd_increase_max jd, jd_frequency jd) of
        (Some q, Some lo, Some hi, Some freq) \<Rightarrow>
          (case telegram_jobs ids clock ts uid jd q lo hi freq [0 ..< max_jobs jd] of
             Inl e \<Rightarrow> (0, jobs)
           | Inr created \<Rightarrow> (length created, jobs @ created))
      | _ \<Rightarrow> (0, jobs))"

definition ids0 :: "nat \<Rightarrow> string" where
  "ids0 i = ''job_'' @ replicate (Suc i) CHR ''x''"

definition jd0 :: job_data where
  "jd0 = \<lparr>api_urls = [''https://a.example/api'', ''https://b.example/api''],
          api_keys = [''key_a''],
          target_links = [''https://example.org/1'', ''https://example.org/2'', ''https://example.org/3''],
          service_ids = [''7''],
          jd_quantity = Some 50, jd_increase_min = Some 5, jd_increase_max = Some 5,
          jd_frequency = Some 10\<rparr>"

text \<open>
  The web form of \<^verbatim>\<open>setup_automation\<close> after its conversions (a field that does not
  convert raises, and the handler then creates nothing). \<open>f_bulk_links\<close> and
  \<open>f_bulk_service_ids\<close> are the stripped non-blank lines of their text fields;
  \<open>f_service_configs\<close> are the \<^verbatim>\<open>individual_*_<n>\<close> fields, read while
  \<^verbatim>\<open>individual_service_id_<n>\<close> is present.
\<close>

record service_config =
  sc_service_id :: string
  sc_quantity :: int
  sc_increase_min :: rat
  sc_increase_max :: rat
  sc_frequency :: int

record form =
  f_api_url :: string
  f_api_key :: string
  f_service_id :: string
  f_bulk_service_ids :: "string list"
  f_quantity :: int
  f_increase_min :: rat
  f_increase_max :: rat
  f_frequency :: int
  f_bulk_mode :: bool
  f_individual_settings :: bool
  f_bulk_links :: "string list"
  f_link :: string
  f_service_configs :: "service_config list"

definition clamp_frequency :: "int \<Rightarrow> int" where
  "clamp_frequency n = (if n < 5 then 5 else n)"

text \<open>
  The job of the individual-settings branch: it also writes \<^verbatim>\<open>paused\<close>, \<^verbatim>\<open>paused_at\<close>,
  \<^verbatim>\<open>resumed_at\<close> and \<^verbatim>\<open>'bulk_group_id': bulk_group_id if bulk_mode else None\<close>.
\<close>

definition individual_job ::
  "(nat \<Rightarrow> string) \<Rightarrow> (nat \<Rightarrow> int) \<Rightarrow> (nat \<Rightarrow> string) \<Rightarrow> string option \<Rightarrow> bool \<Rightarrow> string \<Rightarrow> form \<Rightarrow>
   nat \<Rightarrow> service_config \<Rightarrow> string \<Rightarrow> job" where
  "individual_job ids clock ts bulk_group bulk_mode uid f i c lnk =
     (new_job ids clock ts i uid (f_api_url f) (f_api_key f) (sc_service_id c) lnk
        (sc_quantity c) (sc_increase_min c) (sc_increase_max c) (clamp_frequency (sc_frequency c)))
     \<lparr>paused := Some False, bulk_group_id := (if bulk_mode then bulk_group else None)\<rparr>"

text \<open>
  The POST branch of \<^verbatim>\<open>setup_automation\<close>: \<open>Inl\<close> is the flashed message of a request
  that is turned away, \<open>Inr\<close> the jobs appended to \<^verbatim>\<open>background_jobs\<close>. \<open>gid\<close> is the
  fresh \<^verbatim>\<open>bulk_<uuid4>\<close> string made in bulk mode.
\<close>

definition setup_automation ::
  "(nat \<Rightarrow> string) \<Rightarrow> (nat \<Rightarrow> int) \<Rightarrow> (nat \<Rightarrow> string) \<Rightarrow> string \<Rightarrow> string \<Rightarrow> form \<Rightarrow> string + job list" where
  "setup_automation ids clock ts gid uid f =
     (let frequency = clamp_frequency (f_frequency f);
          bulk_mode = f_bulk_mode f;
          individual_settings = f_individual_settings f
      in if bulk_mode \<and> f_bulk_links f = []
         then Inl ''Please enter at least one link for bulk automation''
         else if bulk_mode \<and> length (f_bulk_links f) > 10
         then Inl ''Maximum 10 links allowed for bulk automation''
         else
           (let bulk_group = (if bulk_mode then Some gid else None);
                links = (if bulk_mode then f_bulk_links f else [f_link f])
            in if individual_settings \<and> bulk_mode
               then (if f_service_configs f = []
                     then Inl ''No service configurations found''
                     else Inr (map (\<lambda>(i, (c, lnk)).
                                 individual_job ids clock ts bulk_group bulk_mode uid f i c lnk)
                               (enumerate 0 (List.product (f_service_configs f) links))))
               else Inr (map (\<lambda>(i, (lnk, sid)).
                           new_job ids clock ts i uid (f_api_url f) (f_api_key f) sid lnk
                             (f_quantity f) (f_increase_min f) (f_increase_max f) frequency)
                         (enumerate 0 (List.product links (f_service_id f # f_bulk_service_ids f))))))"

definition form0 :: form where
  "form0 = \<lparr>f_api_url = ''https://panel.example/api'', f_api_key = ''k'', f_service_id = ''101'',
            f_bulk_service_ids = [], f_quantity = 100, f_increase_min = 10, f_increase_max = 20,
            f_frequency = 3, f_bulk_mode = False, f_individual_settings = False,
            f_bulk_links = [], f_link = ''https://example.org/p/1'', f_service_configs = []\<rparr>"



definition bulk_form :: form where
  "bulk_form = form0\<lparr>f_bulk_mode := True,
                      f_bulk_links := [''https://example.org/p/1'', ''https://example.org/p/2'']\<rparr>"

section \<open>Double-precision arithmetic of \<^verbatim>\<open>calculate_next_quantity\<close>\<close>

text \<open>
  Python's \<^verbatim>\<open>float\<close> is the IEEE 754 binary64 format: 53 significant bits, the smallest
  exponent of a unit in the last place \<open>-1074\<close>, every operation rounded to the nearest
  representable value, ties to the even significand. Finite doubles are rationals, so
  the operations are modelled on \<^typ>\<open>rat\<close>: the exact result, then the rounding.
  \<open>ilog2 x\<close> is \<open>\<lfloor>log\<^sub>2 x\<rfloor>\<close> for positive \<open>x\<close>.
\<close>

definition ilog2 :: "rat \<Rightarrow> int" where
  "ilog2 x = (if 1 \<le> x then bitlen \<lfloor>x\<rfloor> - 1 else - bitlen (\<lceil>1 / x\<rceil> - 1))"

definition round_half_even :: "rat \<Rightarrow> int" where
  "round_half_even y =
     (let f = \<lfloor>y\<rfloor>; d = y - of_int f
      in if d < 1 / 2 then f else if 1 / 2 < d then f + 1 else if even f then f else f + 1)"

definition double_exp :: "rat \<Rightarrow> int" where
  "double_exp x = max (ilog2 \<bar>x\<bar> - 52) (- 1074)"

definition round_double :: "rat \<Rightarrow> rat" where
  "round_double x =
     (if x = 0 then 0
      else of_int (round_half_even (x / 2 powi double_exp x)) * 2 powi double_exp x)"

text \<open>An exact result at or beyond \<open>2\<^sup>1\<^sup>0\<^sup>2\<^sup>4 - 2\<^sup>9\<^sup>7\<^sup>0\<close> rounds to infinity.\<close>

definition double_overflows :: "rat \<Rightarrow> bool" where
  "double_overflows x = (2 ^ 1024 - 2 ^ 970 \<le> \<bar>x\<bar>)"

text \<open>\<^verbatim>\<open>int(x)\<close> of a finite float truncates towards zero.\<close>

definition py_trunc :: "rat \<Rightarrow> int" where
  "py_trunc x = (if 0 \<le> x then \<lfloor>x\<rfloor> else \<lceil>x\<rceil>)"

text \<open>
  \<^verbatim>\<open>int(q * t)\<close> for a Python int \<open>q\<close> and a finite float \<open>t\<close>: \<open>q\<close> is converted to a
  float (\<^verbatim>\<open>OverflowError\<close> when it is too large), the product is rounded, and \<^verbatim>\<open>int\<close> of an
  infinite product raises \<^verbatim>\<open>OverflowError\<close>.
\<close>

definition int_of_product :: "int \<Rightarrow> rat \<Rightarrow> py_error + int" where
  "int_of_product q t =
     (if double_overflows (of_int q)
      then Inl (OverflowError ''int too large to convert to float'')
      else if double_overflows (round_double (of_int q) * t)
      then Inl (OverflowError ''cannot convert float infinity to integer'')
      else Inr (py_trunc (round_double (round_double (of_int q) * t))))"

text \<open>
  \<^verbatim>\<open>calculate_next_quantity(current_quantity, increase_range)\<close>. \<open>p\<close> is the float that
  \<^verbatim>\<open>random.uniform(float(min_increase), float(max_increase))\<close> returns. Every exception
  of the \<^verbatim>\<open>try\<close> block leads to the fallback \<^verbatim>\<open>int(current_quantity * 1.1)\<close>, which is
  outside the \<^verbatim>\<open>try\<close>: its own exception leaves the function.
\<close>

definition fallback_quantity :: "int \<Rightarrow> py_error + int" where
  "fallback_quantity q = int_of_product q (round_double (11 / 10))"

definition calculate_next_quantity :: "rat \<Rightarrow> int \<Rightarrow> increase_range \<Rightarrow> py_error + int" where
  "calculate_next_quantity p q r =
     (case r of
        Malformed \<Rightarrow> fallback_quantity q
      | Increase lo hi \<Rightarrow>
          (case int_of_product q (round_double (p / 100)) of
             Inl e \<Rightarrow> fallback_quantity q
           | Inr increase_amount \<Rightarrow> Inr (q + increase_amount)))"

section \<open>The scheduler tick (bot.py \<^verbatim>\<open>process_automation_jobs\<close>)\<close>

text \<open>
  What one pass of the \<^verbatim>\<open>while True\<close> loop reads from outside the job list:
  \<open>now\<close> is \<^verbatim>\<open>int(time.time())\<close> taken at the start of the pass; \<open>panel\<close> is the reply
  \<^verbatim>\<open>place_order\<close> returns for (api_url, api_key, service_id, link, quantity), which is a
  value also when the request fails, since \<^verbatim>\<open>connect_smm_panel\<close> and \<^verbatim>\<open>place_order\<close> catch
  every exception; \<open>stamp i\<close> is the timestamp \<^verbatim>\<open>place_order\<close> returns for the job at
  position \<open>i\<close>; \<open>fromtimestamp\<close> is \<^verbatim>\<open>datetime.fromtimestamp(t).strftime(...)\<close>, which
  raises when \<open>t\<close> is outside the platform's range; \<open>draw i\<close> is the value of
  \<^verbatim>\<open>random.uniform\<close> for the job at position \<open>i\<close>.
\<close>

record env =
  now :: int
  panel :: "string \<Rightarrow> string \<Rightarrow> string \<Rightarrow> string \<Rightarrow> int \<Rightarrow> response"
  stamp :: "nat \<Rightarrow> string"
  fromtimestamp :: "int \<Rightarrow> py_error + string"
  draw :: "nat \<Rightarrow> rat"

text \<open>
  \<^verbatim>\<open>user_data\<close>, as far as the pass uses it: the users that exist, each with the list
  under its \<^verbatim>\<open>orders\<close> key (a user without the key has the empty list, which the code
  creates before appending).
\<close>

type_synonym users = "string \<rightharpoonup> order_info list"

text \<open>
  The outcome of handling one job: the exception that left the \<^verbatim>\<open>try\<close> block, if any,
  the job and the users as the block left them, and the calls of \<^verbatim>\<open>place_order\<close> it made,
  each recorded as (job id, quantity).
\<close>

record attempt =
  raised :: "py_error option"
  job_after :: job
  users_after :: users
  calls :: "(string \<times> int) list"

definition order_info_of :: "env \<Rightarrow> nat \<Rightarrow> job \<Rightarrow> order_info" where
  "order_info_of e i j =
     \<lparr>o_timestamp = stamp e i, o_quantity = quantity j,
      o_response = panel e (api_url j) (api_key j) (service_id j) (link j) (quantity j),
      o_job_id = job_id j, o_service_id = service_id j, o_link = link j\<rparr>"

text \<open>
  The debug lines before the due test: when \<^verbatim>\<open>next_run > 0\<close> both \<^verbatim>\<open>next_run\<close> and \<^verbatim>\<open>now\<close>
  are formatted.
\<close>

definition debug_info :: "env \<Rightarrow> job \<Rightarrow> py_error option" where
  "debug_info e j =
     (if 0 < next_run j
      then (case fromtimestamp e (next_run j) of
              Inl x \<Rightarrow> Some x
            | Inr _ \<Rightarrow> (case fromtimestamp e (now e) of Inl x \<Rightarrow> Some x | Inr _ \<Rightarrow> None))
      else None)"

text \<open>
  The firing of a due job whose user exists: place the order, append it to the user's
  and to the job's history, compute the next quantity, set \<open>quantity\<close> and \<open>next_run\<close>,
  format the new \<open>next_run\<close> for the notification.
\<close>

definition fire :: "env \<Rightarrow> nat \<Rightarrow> users \<Rightarrow> order_info list \<Rightarrow> job \<Rightarrow> attempt" where
  "fire e i us os j =
     (let info = order_info_of e i j;
          us1 = us(user_id j \<mapsto> os @ [info]);
          j1 = j\<lparr>orders := orders j @ [info]\<rparr>;
          cs = [(job_id j, quantity j)]
      in case calculate_next_quantity (draw e i) (quantity j) (increase_range j) of
           Inl x \<Rightarrow> \<lparr>raised = Some x, job_after = j1, users_after = us1, calls = cs\<rparr>
         | Inr next_quantity \<Rightarrow>
             (let j2 = j1\<lparr>quantity := next_quantity, next_run := now e + frequency j * 60\<rparr>
              in case fromtimestamp e (next_run j2) of
                   Inl x \<Rightarrow> \<lparr>raised = Some x, job_after = j2, users_after = us1, calls = cs\<rparr>
                 | Inr _ \<Rightarrow> \<lparr>raised = None, job_after = j2, users_after = us1, calls = cs\<rparr>))"

text \<open>The body of the per-job \<^verbatim>\<open>try\<close>.\<close>

definition try_job :: "env \<Rightarrow> nat \<Rightarrow> users \<Rightarrow> job \<Rightarrow> attempt" where
  "try_job e i us j =
     (if stopped j
      then \<lparr>raised = None, job_after = j, users_after = us, calls = []\<rparr>
      else (case debug_info e j of
              Some x \<Rightarrow> \<lparr>raised = Some x, job_after = j, users_after = us, calls = []\<rparr>
            | None \<Rightarrow>
                if is_due (now e) j
                then (case us (user_id j) of
                        None \<Rightarrow> \<lparr>raised = None, job_after = j, users_after = us, calls = []\<rparr>
                      | Some os \<Rightarrow> fire e i us os j)
                else \<lparr>raised = None, job_after = j, users_after = us, calls = []\<rparr>))"

text \<open>
  The \<^verbatim>\<open>except\<close> branch: count the error, and past five errors stop the job with a
  reason.
\<close>

definition on_error :: "py_error \<Rightarrow> job \<Rightarrow> job" where
  "on_error x j =
     (let n = (case error_count j of None \<Rightarrow> 1 | Some c \<Rightarrow> c + 1);
          j1 = j\<lparr>error_count := Some n\<rparr>
      in if 5 < n
         then j1\<lparr>stopped := True, stopped_reason := Some (''Too many errors: '' @ str_error x)\<rparr>
         else j1)"

definition process_job :: "env \<Rightarrow> nat \<Rightarrow> users \<Rightarrow> job \<Rightarrow> job \<times> users \<times> (string \<times> int) list" where
  "process_job e i us j =
     (let a = try_job e i us j
      in (case raised a of
            None \<Rightarrow> (job_after a, users_after a, calls a)
          | Some x \<Rightarrow> (on_error x (job_after a), users_after a, calls a)))"

text \<open>The loop over \<^verbatim>\<open>background_jobs\<close>, in list order; the result replaces the list.\<close>

fun process_jobs :: "env \<Rightarrow> nat \<Rightarrow> users \<Rightarrow> job list \<Rightarrow> job list \<times> users \<times> (string \<times> int) list" where
  "process_jobs e i us [] = ([], us, [])"
| "process_jobs e i us (j # js) =
     (case process_job e i us j of
        (j', us1, cs) \<Rightarrow>
          (case process_jobs e (Suc i) us1 js of
             (js', us2, cs') \<Rightarrow> (j' # js', us2, cs @ cs')))"

definition tick :: "env \<Rightarrow> job list \<times> users \<Rightarrow> job list \<times> users \<times> (string \<times> int) list" where
  "tick e s = process_jobs e 0 (snd s) (fst s)"

text \<open>Several passes in a row, one environment per pass; the calls are collected.\<close>

fun run_ticks :: "env list \<Rightarrow> job list \<times> users \<Rightarrow> job list \<times> users \<times> (string \<times> int) list" where
  "run_ticks [] s = (fst s, snd s, [])"
| "run_ticks (e # es) s =
     (case tick e s of
        (js, us, cs) \<Rightarrow>
          (case run_ticks es (js, us) of (js', us', cs') \<Rightarrow> (js', us', cs @ cs')))"

text \<open>Example environments: a panel that accepts and one that refuses every order.\<close>

definition accepted :: response where
  "accepted = \<lparr>order = Some ''9001'', error = None\<rparr>"

definition refused :: response where
  "refused = \<lparr>order = None, error = Some ''Connection error''\<rparr>"

definition env_at :: "int \<Rightarrow> response \<Rightarrow> rat \<Rightarrow> env" where
  "env_at t r p =
     \<lparr>now = t, panel = (\<lambda>url key sid lnk q. r), stamp = ts0,
      fromtimestamp = (\<lambda>x. if 253402300799 < x
                             then Inl (ValueError ''year 10000 is out of range'')
                             else Inr ''2024-01-02 03:04:05''),
      draw = (\<lambda>i. p)\<rparr>"

definition users0 :: users where
  "users0 = [''alice'' \<mapsto> []]"

definition tick_jobs :: "job list" where
  "tick_jobs = [job0, stopped_job\<lparr>job_id := ''job_s'', next_run := 500\<rparr>]"

definition paused_job :: job where
  "paused_job = job0\<lparr>paused := Some True, paused_at := Some ''2024-01-01 09:00:00''\<rparr>"

definition failing_job :: job where
  "failing_job = job0\<lparr>increase_range := Increase 0 0\<rparr>"

definition refused_info :: "int \<Rightarrow> order_info" where
  "refused_info q = \<lparr>o_timestamp = ''2024-01-02 03:04:05'', o_quantity = q, o_response = refused,
                     o_job_id = ''job_a'', o_service_id = ''101'', o_link = ''https://example.org/p/1''\<rparr>"

definition accepted_info :: "int \<Rightarrow> order_info" where
  "accepted_info q = \<lparr>o_timestamp = ''2024-01-02 03:04:05'', o_quantity = q, o_response = accepted,
                      o_job_id = ''job_a'', o_service_id = ''101'', o_link = ''https://example.org/p/1''\<rparr>"

text \<open>The number of errors the \<^verbatim>\<open>except\<close> branch has counted for a job so far.\<close>

definition errors_so_far :: "job \<Rightarrow> int" where
  "errors_so_far j = (case error_count j of None \<Rightarrow> 0 | Some c \<Rightarrow> c)"

definition overdue_job :: job where
  "overdue_job = job0\<lparr>next_run := 1000000000000, error_count := Some 5\<rparr>"

definition six_refusals :: "env list" where
  "six_refusals = [env_at 1000 refused 0, env_at 1300 refused 0, env_at 1600 refused 0,
                   env_at 1900 refused 0, env_at 2200 refused 0, env_at 2500 refused 0]"

section \<open>Bulk group operations touch exactly the group\<close>

lemma pause_bulk_from_length: "length (snd (pause_bulk_from ts g uid i js)) = length js"
  by (induction js arbitrary: i) (simp_all add: case_prod_beta)

lemma pause_bulk_from_count:
  "fst (pause_bulk_from ts g uid i js) = length (filter (in_group g uid) js)"
  by (induction js arbitrary: i) (simp_all add: case_prod_beta)

lemma pause_bulk_from_nth:
  "k < length js \<Longrightarrow>
   snd (pause_bulk_from ts g uid i js) ! k =
     (if in_group g uid (js ! k) then paused_at_pos ts (i + k) (js ! k) else js ! k)"
proof (induction js arbitrary: i k)
  case Nil
  then show ?case by simp
next
  case (Cons j js)
  show ?case
  proof (cases k)
    case 0
    then show ?thesis by (simp add: paused_at_pos_def case_prod_beta)
  next
    case (Suc k')
    with Cons.prems have "k' < length js" by simp
    from Cons.IH [OF this, of "Suc i"] Suc show ?thesis
      by (simp add: case_prod_beta)
  qed
qed

lemma resume_bulk_from_length: "length (snd (resume_bulk_from ts clock g uid i js)) = length js"
  by (induction js arbitrary: i) (simp_all add: case_prod_beta)

lemma resume_bulk_from_count:
  "fst (resume_bulk_from ts clock g uid i js) = length (filter (in_group g uid) js)"
  by (induction js arbitrary: i) (simp_all add: case_prod_beta)

lemma resume_bulk_from_nth:
  "k < length js \<Longrightarrow>
   snd (resume_bulk_from ts clock g uid i js) ! k =
     (if in_group g uid (js ! k) then resumed_at_pos ts clock (i + k) (js ! k) else js ! k)"
proof (induction js arbitrary: i k)
  case Nil
  then show ?case by simp
next
  case (Cons j js)
  show ?case
  proof (cases k)
    case 0
    then show ?thesis by (simp add: resumed_at_pos_def case_prod_beta)
  next
    case (Suc k')
    with Cons.prems have "k' < length js" by simp
    from Cons.IH [OF this, of "Suc i"] Suc show ?thesis
      by (simp add: case_prod_beta)
  qed
qed

lemma stop_bulk_from_length: "length (snd (stop_bulk_from ts g uid i js)) = length js"
  by (induction js arbitrary: i) (simp_all add: case_prod_beta)

lemma stop_bulk_from_count:
  "fst (stop_bulk_from ts g uid i js) = length (filter (in_group g uid) js)"
  by (induction js arbitrary: i) (simp_all add: case_prod_beta)

lemma stop_bulk_from_nth:
  "k < length js \<Longrightarrow>
   snd (stop_bulk_from ts g uid i js) ! k =
     (if in_group g uid (js ! k) then stopped_at_pos ts (i + k) (js ! k) else js ! k)"
proof (induction js arbitrary: i k)
  case Nil
  then show ?case by simp
next
  case (Cons j js)
  show ?case
  proof (cases k)
    case 0
    then show ?thesis by (simp add: stopped_at_pos_def case_prod_beta)
  next
    case (Suc k')
    with Cons.prems have "k' < length js" by simp
    from Cons.IH [OF this, of "Suc i"] Suc show ?thesis
      by (simp add: case_prod_beta)
  qed
qed

text \<open>
  Claim C5. For every group id \<open>g\<close> and requester \<open>uid\<close>, \<^verbatim>\<open>pause_bulk_jobs\<close>,
  \<^verbatim>\<open>resume_bulk_jobs\<close> and \<^verbatim>\<open>stop_bulk_jobs\<close> keep the list's length, rewrite exactly the
  jobs whose \<open>bulk_group_id\<close> is \<open>g\<close>, whose owner is \<open>uid\<close> and which are not stopped
  (pause sets \<open>paused\<close> and \<open>paused_at\<close>; resume clears \<open>paused\<close> and sets \<open>resumed_at\<close> and
  \<open>next_run\<close>; stop sets \<open>stopped\<close> and \<open>stopped_at\<close>), leave every other job as it was, and
  return the number of jobs of the group. The result is a plain count: when no job
  matches it is 0 and the list is returned as it was; there is no error value.
\<close>

theorem bulk_operations_affect_exactly_group:
  "k < length jobs \<Longrightarrow>
     length (snd (pause_bulk_jobs ts g uid jobs)) = length jobs
   \<and> length (snd (resume_bulk_jobs ts clock g uid jobs)) = length jobs
   \<and> length (snd (stop_bulk_jobs ts g uid jobs)) = length jobs
   \<and> snd (pause_bulk_jobs ts g uid jobs) ! k =
       (if in_group g uid (jobs ! k) then paused_at_pos ts k (jobs ! k) else jobs ! k)
   \<and> snd (resume_bulk_jobs ts clock g uid jobs) ! k =
       (if in_group g uid (jobs ! k) then resumed_at_pos ts clock k (jobs ! k) else jobs ! k)
   \<and> snd (stop_bulk_jobs ts g uid jobs) ! k =
       (if in_group g uid (jobs ! k) then stopped_at_pos ts k (jobs ! k) else jobs ! k)
   \<and> fst (pause_bulk_jobs ts g uid jobs) = length (filter (in_group g uid) jobs)
   \<and> fst (resume_bulk_jobs ts clock g uid jobs) = length (filter (in_group g uid) jobs)
   \<and> fst (stop_bulk_jobs ts g uid jobs) = length (filter (in_group g uid) jobs)
   \<and> (fst (pause_bulk_jobs ts g uid jobs) = 0 \<longrightarrow> snd (pause_bulk_jobs ts g uid jobs) = jobs)
   \<and> (fst (resume_bulk_jobs ts clock g uid jobs) = 0 \<longrightarrow> snd (resume_bulk_jobs ts clock g uid jobs) = jobs)
   \<and> (fst (stop_bulk_jobs ts g uid jobs) = 0 \<longrightarrow> snd (stop_bulk_jobs ts g uid jobs) = jobs)"
proof -
  assume k: "k < length jobs"
  have zero: "\<And>r::job list. length r = length jobs \<Longrightarrow>
      (\<And>m. m < length jobs \<Longrightarrow> \<not> in_group g uid (jobs ! m) \<Longrightarrow> r ! m = jobs ! m) \<Longrightarrow>
      length (filter (in_group g uid) jobs) = 0 \<Longrightarrow> r = jobs"
  proof -
    fix r :: "job list"
    assume len: "length r = length jobs"
      and same: "\<And>m. m < length jobs \<Longrightarrow> \<not> in_group g uid (jobs ! m) \<Longrightarrow> r ! m = jobs ! m"
      and none: "length (filter (in_group g uid) jobs) = 0"
    from none have "\<forall>j \<in> set jobs. \<not> in_group g uid j"
      by (simp add: filter_empty_conv)
    then have "\<And>m. m < length jobs \<Longrightarrow> r ! m = jobs ! m"
      using same by simp
    with len show "r = jobs" by (simp add: list_eq_iff_nth_eq)
  qed
  have p0: "fst (pause_bulk_jobs ts g uid jobs) = 0 \<longrightarrow> snd (pause_bulk_jobs ts g uid jobs) = jobs"
    unfolding pause_bulk_jobs_def
    using zero [of "snd (pause_bulk_from ts g uid 0 jobs)"]
    by (simp add: pause_bulk_from_length pause_bulk_from_nth pause_bulk_from_count)
  have r0: "fst (resume_bulk_jobs ts clock g uid jobs) = 0 \<longrightarrow> snd (resume_bulk_jobs ts clock g uid jobs) = jobs"
    unfolding resume_bulk_jobs_def
    using zero [of "snd (resume_bulk_from ts clock g uid 0 jobs)"]
    by (simp add: resume_bulk_from_length resume_bulk_from_nth resume_bulk_from_count)
  have s0: "fst (stop_bulk_jobs ts g uid jobs) = 0 \<longrightarrow> snd (stop_bulk_jobs ts g uid jobs) = jobs"
    unfolding stop_bulk_jobs_def
    using zero [of "snd (stop_bulk_from ts g uid 0 jobs)"]
    by (simp add: stop_bulk_from_length stop_bulk_from_nth stop_bulk_from_count)
  from k p0 r0 s0 show ?thesis
    by (simp add: pause_bulk_jobs_def resume_bulk_jobs_def stop_bulk_jobs_def
        pause_bulk_from_length resume_bulk_from_length stop_bulk_from_length
        pause_bulk_from_nth resume_bulk_from_nth stop_bulk_from_nth
        pause_bulk_from_count resume_bulk_from_count stop_bulk_from_count)
qed

theorem bulk_operations_affect_exactly_group_witness:
  "(0::nat) < length group_jobs
   \<and> fst (pause_bulk_jobs ts0 (Some ''bulk_1'') ''alice'' group_jobs) = 1
   \<and> fst (resume_bulk_jobs ts0 clock0 (Some ''bulk_1'') ''alice'' group_jobs) = 1
   \<and> fst (stop_bulk_jobs ts0 (Some ''bulk_1'') ''alice'' group_jobs) = 1
   \<and> snd (pause_bulk_jobs ts0 (Some ''bulk_1'') ''alice'' group_jobs) ! 0 =
        paused_at_pos ts0 0 (group_jobs ! 0)
   \<and> snd (resume_bulk_jobs ts0 clock0 (Some ''bulk_1'') ''alice'' group_jobs) ! 0 =
        resumed_at_pos ts0 clock0 0 (group_jobs ! 0)
   \<and> snd (stop_bulk_jobs ts0 (Some ''bulk_1'') ''alice'' group_jobs) ! 0 =
        stopped_at_pos ts0 0 (group_jobs ! 0)
   \<and> fst (pause_bulk_jobs ts0 (Some ''bulk_9'') ''alice'' group_jobs) = 0
   \<and> snd (pause_bulk_jobs ts0 (Some ''bulk_9'') ''alice'' group_jobs) = group_jobs"
proof -
  have len: "(0::nat) < length group_jobs"
    by (simp add: group_jobs_def)
  have g: "in_group (Some ''bulk_1'') ''alice'' (group_jobs ! 0)"
    by (simp add: group_jobs_def in_group_def job0_def)
  have n1: "length (filter (in_group (Some ''bulk_1'') ''alice'') group_jobs) = 1"
    by (simp add: group_jobs_def in_group_def job0_def)
  have n9: "length (filter (in_group (Some ''bulk_9'') ''alice'') group_jobs) = 0"
    by (simp add: group_jobs_def in_group_def job0_def)
  from bulk_operations_affect_exactly_group [OF len, of ts0 "Some ''bulk_1''" "''alice''" clock0]
    bulk_operations_affect_exactly_group [OF len, of ts0 "Some ''bulk_9''" "''alice''" clock0]
    len g n1 n9
  show ?thesis by simp
qed

section \<open>Single-job lifecycle operations\<close>

lemma resume_job_from_first:
  "k < length js \<Longrightarrow> job_id (js ! k) = jid \<Longrightarrow> user_id (js ! k) = uid \<Longrightarrow>
   (\<And>m. m < k \<Longrightarrow> job_id (js ! m) \<noteq> jid \<or> user_id (js ! m) \<noteq> uid) \<Longrightarrow>
   resume_job_from ts clock jid uid i js = (True, js[k := resumed_at_pos ts clock (i + k) (js ! k)])"
proof (induction js arbitrary: i k)
  case Nil
  then show ?case by simp
next
  case (Cons j js)
  show ?case
  proof (cases k)
    case 0
    with Cons.prems show ?thesis by (simp add: resumed_at_pos_def)
  next
    case (Suc k')
    from Cons.prems(4) [of 0] Suc have nomatch: "\<not> (job_id j = jid \<and> user_id j = uid)"
      by auto
    have "resume_job_from ts clock jid uid (Suc i) js =
        (True, js[k' := resumed_at_pos ts clock (Suc i + k') (js ! k')])"
    proof (rule Cons.IH)
      show "k' < length js" using Cons.prems(1) Suc by simp
      show "job_id (js ! k') = jid" using Cons.prems(2) Suc by simp
      show "user_id (js ! k') = uid" using Cons.prems(3) Suc by simp
      show "job_id (js ! m) \<noteq> jid \<or> user_id (js ! m) \<noteq> uid" if "m < k'" for m
        using Cons.prems(4) [of "Suc m"] that Suc by simp
    qed
    with nomatch Suc show ?thesis by auto
  qed
qed

lemma distinct_ids_first:
  assumes "distinct (map job_id js)" "k < length js" "m < k"
  shows "job_id (js ! m) \<noteq> job_id (js ! k)"
proof -
  from assms have "m < length (map job_id js)" "k < length (map job_id js)" "m \<noteq> k"
    by simp_all
  with assms(1) have "map job_id js ! m \<noteq> map job_id js ! k"
    unfolding distinct_conv_nth by blast
  with assms show ?thesis by simp
qed

text \<open>
  Claim C7. Job ids are unique in the repository. For every paused job that is not stopped
  and is owned by the requester, \<^verbatim>\<open>resume_job\<close> succeeds (returns \<^verbatim>\<open>True\<close>), and rewrites
  that job and no other: \<open>paused\<close> becomes false, \<open>resumed_at\<close> records the timestamp read
  during the call, and \<open>next_run\<close> is the time read during the call. Hence at every
  scheduler evaluation at or after that time the job passes the due test
  \<^verbatim>\<open>now >= next_run\<close>, whatever its frequency is.
\<close>

theorem resume_makes_job_due:
  assumes "k < length jobs"
    and "distinct (map job_id jobs)"
    and "user_id (jobs ! k) = uid"
    and "paused (jobs ! k) = Some True"
    and "\<not> stopped (jobs ! k)"
  shows "fst (resume_job ts clock (job_id (jobs ! k)) uid jobs) = True
       \<and> snd (resume_job ts clock (job_id (jobs ! k)) uid jobs) =
           jobs[k := (jobs ! k)\<lparr>paused := Some False, resumed_at := Some (ts k), next_run := clock k\<rparr>]
       \<and> next_run (snd (resume_job ts clock (job_id (jobs ! k)) uid jobs) ! k) = clock k
       \<and> paused (snd (resume_job ts clock (job_id (jobs ! k)) uid jobs) ! k) = Some False
       \<and> resumed_at (snd (resume_job ts clock (job_id (jobs ! k)) uid jobs) ! k) = Some (ts k)
       \<and> (\<forall>now. clock k \<le> now \<longrightarrow> is_due now (snd (resume_job ts clock (job_id (jobs ! k)) uid jobs) ! k))"
proof -
  have "resume_job_from ts clock (job_id (jobs ! k)) uid 0 jobs =
      (True, jobs[k := resumed_at_pos ts clock (0 + k) (jobs ! k)])"
  proof (rule resume_job_from_first)
    show "k < length jobs" by (rule assms(1))
    show "job_id (jobs ! k) = job_id (jobs ! k)" by simp
    show "user_id (jobs ! k) = uid" by (rule assms(3))
    show "job_id (jobs ! m) \<noteq> job_id (jobs ! k) \<or> user_id (jobs ! m) \<noteq> uid" if "m < k" for m
      using distinct_ids_first [OF assms(2) assms(1) that] by simp
  qed
  with assms(1) show ?thesis
    by (simp add: resume_job_def resumed_at_pos_def is_due_def)
qed

theorem resume_makes_job_due_witness:
  "(1::nat) < length paused_jobs
   \<and> distinct (map job_id paused_jobs)
   \<and> user_id (paused_jobs ! 1) = ''alice''
   \<and> paused (paused_jobs ! 1) = Some True
   \<and> \<not> stopped (paused_jobs ! 1)
   \<and> fst (resume_job ts0 clock0 ''job_a'' ''alice'' paused_jobs) = True
   \<and> next_run (snd (resume_job ts0 clock0 ''job_a'' ''alice'' paused_jobs) ! 1) = 2000
   \<and> paused (snd (resume_job ts0 clock0 ''job_a'' ''alice'' paused_jobs) ! 1) = Some False
   \<and> resumed_at (snd (resume_job ts0 clock0 ''job_a'' ''alice'' paused_jobs) ! 1) = Some ''2024-01-02 03:04:05''
   \<and> is_due 2015 (snd (resume_job ts0 clock0 ''job_a'' ''alice'' paused_jobs) ! 1)"
proof -
  have h1: "(1::nat) < length paused_jobs" by (simp add: paused_jobs_def)
  have h2: "distinct (map job_id paused_jobs)" by (simp add: paused_jobs_def job0_def)
  have h3: "user_id (paused_jobs ! 1) = ''alice''" by (simp add: paused_jobs_def job0_def)
  have h4: "paused (paused_jobs ! 1) = Some True" by (simp add: paused_jobs_def job0_def)
  have h5: "\<not> stopped (paused_jobs ! 1)" by (simp add: paused_jobs_def job0_def)
  have id: "job_id (paused_jobs ! 1) = ''job_a''" by (simp add: paused_jobs_def job0_def)
  from resume_makes_job_due [OF h1 h2 h3 h4 h5, of ts0 clock0, unfolded id] h1 h2 h3 h4 h5
  show ?thesis by (simp add: ts0_def clock0_def is_due_def)
qed

text \<open>
  Claim C3, at a stopped job. The claim asks that pause, resume and stop on a stopped
  job report failure and leave the record as it is. The single-job functions have no
  guard on \<open>stopped\<close> (the bulk functions have one): on a stopped job owned by the
  requester \<^verbatim>\<open>pause_job\<close> and \<^verbatim>\<open>resume_job\<close> return \<^verbatim>\<open>True\<close> and write their fields,
  and \<^verbatim>\<open>stop_job\<close> returns \<^verbatim>\<open>True\<close> and overwrites \<open>stopped_at\<close> and \<open>stopped_by\<close>.
\<close>

theorem lifecycle_calls_on_stopped_job:
  "pause_job ts0 ''job_a'' ''alice'' [stopped_job] =
     (True, [stopped_job\<lparr>paused := Some True, paused_at := Some ''2024-01-02 03:04:05''\<rparr>])
   \<and> resume_job ts0 clock0 ''job_a'' ''alice'' [stopped_job] =
     (True, [stopped_job\<lparr>paused := Some False, resumed_at := Some ''2024-01-02 03:04:05'', next_run := 2000\<rparr>])
   \<and> stop_job ts0 ''job_a'' (Some ''admin'') [stopped_job] =
     (True, [stopped_job\<lparr>stopped_at := Some ''2024-01-02 03:04:05'', stopped_by := Some ''admin''\<rparr>])
   \<and> stopped_job\<lparr>paused := Some True, paused_at := Some ''2024-01-02 03:04:05''\<rparr> \<noteq> stopped_job
   \<and> stopped_job\<lparr>paused := Some False, resumed_at := Some ''2024-01-02 03:04:05'', next_run := 2000\<rparr> \<noteq> stopped_job
   \<and> stopped_job\<lparr>stopped_at := Some ''2024-01-02 03:04:05'', stopped_by := Some ''admin''\<rparr> \<noteq> stopped_job"
  by (simp add: pause_job_def resume_job_def stop_job_def stopped_job_def job0_def ts0_def clock0_def)

section \<open>Job creation\<close>









text \<open>
  The other creation paths never write \<open>bulk_group_id\<close>: a plain bulk request with two
  links and a Telegram request with three links create several jobs without a group id
  (the web handler computes the id and does not store it; the Telegram function computes
  \<^verbatim>\<open>is_bulk\<close> and does not use it).
\<close>

lemma plain_bulk_jobs_have_no_group_id:
  "map_sum id (map bulk_group_id) (setup_automation ids0 clock0 ts0 ''bulk_g'' ''alice'' bulk_form)
     = Inr [None, None]
   \<and> map bulk_group_id (snd (create_jobs_from_telegram ids0 clock0 ts0 ''alice'' jd0 []))
     = [None, None, None]"
  by (simp add: setup_automation_def bulk_form_def form0_def Let_def enumerate_eq_zip
      new_job_def create_jobs_from_telegram_def jd0_def max_jobs_def telegram_job_def pick_def
      upt_rec [of 0] upt_rec [of 1] upt_rec [of 2])

section \<open>Rounding to double precision: error bounds\<close>

lemma ilog2_lower:
  assumes "0 < x"
  shows "2 powi ilog2 x \<le> x"
proof (cases "1 \<le> x")
  case True
  then have n: "0 < \<lfloor>x\<rfloor>" by simp
  from bitlen_bounds [OF n] have b: "2 ^ nat (bitlen \<lfloor>x\<rfloor> - 1) \<le> \<lfloor>x\<rfloor>" by simp
  from n have "1 \<le> bitlen \<lfloor>x\<rfloor>" by (simp add: bitlen_alt_def)
  then have "(2::rat) powi ilog2 x = 2 ^ nat (bitlen \<lfloor>x\<rfloor> - 1)"
    using True by (simp add: ilog2_def power_int_def)
  also have "\<dots> = of_int (2 ^ nat (bitlen \<lfloor>x\<rfloor> - 1))" by simp
  also have "\<dots> \<le> of_int \<lfloor>x\<rfloor>" using b by (simp only: of_int_le_iff)
  also have "\<dots> \<le> x" by simp
  finally show ?thesis .
next
  case False
  with assms have y: "1 < 1 / x" by simp
  then have m: "0 < \<lceil>1 / x\<rceil> - 1" by linarith
  define c where "c = bitlen (\<lceil>1 / x\<rceil> - 1)"
  from bitlen_bounds [OF m] have "\<lceil>1 / x\<rceil> - 1 < 2 ^ nat c" by (simp add: c_def)
  then have i: "\<lceil>1 / x\<rceil> \<le> 2 ^ nat c" by simp
  have "1 / x \<le> of_int \<lceil>1 / x\<rceil>" by (rule le_of_int_ceiling)
  also have "\<dots> \<le> of_int (2 ^ nat c)" using i by (simp only: of_int_le_iff)
  also have "\<dots> = 2 ^ nat c" by simp
  finally have "1 / x \<le> 2 ^ nat c" .
  with assms have le: "1 / 2 ^ nat c \<le> x"
    by (simp add: field_simps)
  have c: "0 \<le> c" by (simp add: c_def bitlen_nonneg)
  have "(2::rat) powi ilog2 x = 2 powi (- c)"
    using False by (simp add: ilog2_def c_def)
  also have "\<dots> = 1 / 2 powi c" by (rule power_int_minus_divide)
  also have "\<dots> = 1 / 2 ^ nat c" using c by (simp add: power_int_nonneg_exp)
  also note le
  finally show ?thesis .
qed

lemma round_half_even_error: "\<bar>of_int (round_half_even y) - y\<bar> \<le> 1 / 2"
proof -
  have "of_int \<lfloor>y\<rfloor> \<le> y" "y < of_int \<lfloor>y\<rfloor> + 1" by linarith+
  then show ?thesis
    by (auto simp: round_half_even_def Let_def)
qed

lemma round_half_even_nonneg: "0 \<le> y \<Longrightarrow> 0 \<le> round_half_even y"
  by (auto simp: round_half_even_def Let_def)

lemma round_half_even_of_int: "round_half_even (of_int k) = k"
  by (simp add: round_half_even_def Let_def)

lemma round_double_nonneg: "0 \<le> x \<Longrightarrow> 0 \<le> round_double x"
  by (simp add: round_double_def round_half_even_nonneg)

lemma round_double_error:
  assumes "0 \<le> x"
  shows "\<bar>round_double x - x\<bar> \<le> x / 2 ^ 53 + 1 / 2 ^ 1075"
proof (cases "x = 0")
  case True
  then show ?thesis by (simp add: round_double_def)
next
  case False
  with assms have pos: "0 < x" by simp
  define s :: rat where "s = 2 powi double_exp x"
  have s: "0 < s" by (simp add: s_def)
  have "round_double x - x = (of_int (round_half_even (x / s)) - x / s) * s"
    using False s by (simp add: round_double_def s_def [symmetric] field_simps)
  then have "\<bar>round_double x - x\<bar> = \<bar>of_int (round_half_even (x / s)) - x / s\<bar> * s"
    using s by (simp add: abs_mult)
  also have "\<dots> \<le> (1 / 2) * s"
    using round_half_even_error [of "x / s"] s by (intro mult_right_mono) simp_all
  finally have e: "\<bar>round_double x - x\<bar> \<le> s / 2" by simp
  have "s \<le> x / 2 ^ 52 + 1 / 2 ^ 1074"
  proof (cases "- 1074 \<le> ilog2 x - 52")
    case True
    then have "double_exp x = ilog2 x - 52"
      using pos unfolding double_exp_def by (simp add: max_absorb1)
    then have "s = 2 powi (ilog2 x - 52)"
      by (simp add: s_def)
    also have "\<dots> = 2 powi ilog2 x / 2 powi 52"
      by (simp add: power_int_diff)
    also have "\<dots> \<le> x / 2 ^ 52"
      using ilog2_lower [OF pos] by (simp add: divide_right_mono)
    finally show ?thesis by simp
  next
    case False
    then have "double_exp x = - 1074"
      using pos unfolding double_exp_def by (simp add: max_absorb2)
    then have "s = 2 powi (- 1074)"
      by (simp add: s_def)
    also have "\<dots> = 1 / 2 ^ 1074"
      by (simp add: power_int_minus_divide)
    finally show ?thesis using pos by simp
  qed
  with e show ?thesis by simp
qed

lemma round_double_of_int:
  assumes "1 \<le> q" and "q < 2 ^ 53"
  shows "round_double (of_int q) = of_int q"
proof -
  from assms have q: "0 < q" by simp
  have fl: "\<lfloor>(of_int q :: rat)\<rfloor> = q" by simp
  from bitlen_bounds [OF q] have "1 \<le> bitlen q"
    using q by (simp add: bitlen_alt_def)
  moreover have "bitlen q \<le> 53"
    using assms by (simp add: bitlen_le_iff_power)
  ultimately have l: "0 \<le> ilog2 (of_int q)" "ilog2 (of_int q) \<le> 52"
    using assms by (simp_all add: ilog2_def)
  define k where "k = nat (52 - ilog2 (of_int q :: rat))"
  from l have e: "double_exp (of_int q) = - int k"
    using assms by (simp add: double_exp_def k_def)
  have p: "(2::rat) powi (- int k) = 1 / 2 ^ k"
    by (simp add: power_int_minus_divide)
  have "of_int q / (1 / 2 ^ k) = (of_int (q * 2 ^ k) :: rat)" by simp
  then have "round_half_even (of_int q / (1 / 2 ^ k)) = q * 2 ^ k"
    by (simp only: round_half_even_of_int)
  then show ?thesis
    using q by (simp add: round_double_def e p)
qed

lemma ilog2_upper:
  assumes "0 < x"
  shows "x < 2 powi (ilog2 x + 1)"
proof (cases "1 \<le> x")
  case True
  then have n: "0 < \<lfloor>x\<rfloor>" by simp
  from bitlen_bounds [OF n] have b: "\<lfloor>x\<rfloor> < 2 ^ nat (bitlen \<lfloor>x\<rfloor>)" by simp
  then have b': "\<lfloor>x\<rfloor> + 1 \<le> 2 ^ nat (bitlen \<lfloor>x\<rfloor>)" by simp
  have nn: "0 \<le> bitlen \<lfloor>x\<rfloor>" by (rule bitlen_nonneg)
  have "x < of_int \<lfloor>x\<rfloor> + 1" by linarith
  also have "\<dots> = of_int (\<lfloor>x\<rfloor> + 1)" by simp
  also have "\<dots> \<le> of_int (2 ^ nat (bitlen \<lfloor>x\<rfloor>))"
    using b' by (simp only: of_int_le_iff)
  also have "\<dots> = 2 ^ nat (bitlen \<lfloor>x\<rfloor>)" by simp
  also have "\<dots> = 2 powi (bitlen \<lfloor>x\<rfloor>)" using nn by (simp add: power_int_nonneg_exp)
  also have "\<dots> = 2 powi (ilog2 x + 1)" using True by (simp add: ilog2_def)
  finally show ?thesis .
next
  case False
  with assms have y: "1 < 1 / x" by simp
  then have m: "0 < \<lceil>1 / x\<rceil> - 1" by linarith
  define c where "c = bitlen (\<lceil>1 / x\<rceil> - 1)"
  from m have c1: "1 \<le> c" by (simp add: c_def bitlen_alt_def)
  from bitlen_bounds [OF m] have i: "2 ^ nat (c - 1) \<le> \<lceil>1 / x\<rceil> - 1" by (simp add: c_def)
  have "(2::rat) ^ nat (c - 1) = of_int (2 ^ nat (c - 1))" by simp
  also have "\<dots> \<le> of_int (\<lceil>1 / x\<rceil> - 1)" using i by (simp only: of_int_le_iff)
  also have "\<dots> = of_int \<lceil>1 / x\<rceil> - 1" by simp
  also have "\<dots> < 1 / x" by linarith
  finally have "(2::rat) ^ nat (c - 1) < 1 / x" .
  with assms have lt: "x < 1 / 2 ^ nat (c - 1)"
    by (simp add: field_simps)
  have "(2::rat) powi (ilog2 x + 1) = 2 powi (- (c - 1))"
    using False by (simp add: ilog2_def c_def)
  also have "\<dots> = 1 / 2 powi (c - 1)" by (rule power_int_minus_divide)
  also have "\<dots> = 1 / 2 ^ nat (c - 1)" using c1 by (simp add: power_int_nonneg_exp)
  finally show ?thesis using lt by simp
qed

lemma ilog2_unique:
  assumes "0 < x" and "2 powi k \<le> x" and "x < 2 powi (k + 1)"
  shows "ilog2 x = k"
proof -
  have "(2::rat) powi ilog2 x < 2 powi (k + 1)"
    using ilog2_lower [OF assms(1)] assms(3) by simp
  then have a: "ilog2 x < k + 1"
    using power_int_increasing [of "k + 1" "ilog2 x" "2::rat"] by (cases "ilog2 x < k + 1") simp_all
  have "(2::rat) powi k < 2 powi (ilog2 x + 1)"
    using ilog2_upper [OF assms(1)] assms(2) by simp
  then have b: "k < ilog2 x + 1"
    using power_int_increasing [of "ilog2 x + 1" k "2::rat"] by (cases "k < ilog2 x + 1") simp_all
  from a b show ?thesis by simp
qed

lemma round_double_eqI:
  assumes "0 < x" and "2 powi (e + 52) \<le> x" and "x < 2 powi (e + 53)" and "- 1074 \<le> e"
    and "round_half_even (x / 2 powi e) = m"
  shows "round_double x = of_int m * 2 powi e"
proof -
  have "ilog2 x = e + 52"
    using assms(1-3) by (intro ilog2_unique) (simp_all add: add.assoc)
  with assms(1,4) have "double_exp x = e"
    by (simp add: double_exp_def)
  with assms(1,5) show ?thesis
    by (simp add: round_double_def)
qed

lemma round_half_even_eqI:
  assumes "\<bar>y - of_int m\<bar> < 1 / 2"
  shows "round_half_even y = m"
proof (cases "of_int m \<le> y")
  case True
  with assms have "\<lfloor>y\<rfloor> = m" by (intro floor_unique) simp_all
  with assms True show ?thesis by (simp add: round_half_even_def Let_def)
next
  case False
  with assms have f: "\<lfloor>y\<rfloor> = m - 1" by (intro floor_unique) simp_all
  from assms False have "1 / 2 < y - of_int (m - 1)" by simp
  with f show ?thesis by (simp add: round_half_even_def Let_def)
qed

lemma round_half_even_tie:
  assumes "y = of_int m + 1 / 2"
  shows "round_half_even y = (if even m then m else m + 1)"
proof -
  from assms have "\<lfloor>y\<rfloor> = m" by (intro floor_unique) simp_all
  with assms show ?thesis by (simp add: round_half_even_def Let_def)
qed

lemma round_double_error_numeral:
  assumes "0 \<le> x"
  shows "\<bar>round_double x - x\<bar> \<le> x / 9007199254740992 + 1 / 1152921504606846976"
proof -
  have p53: "(2::rat) ^ 53 = 9007199254740992" by simp
  have eta: "(1::rat) / 2 ^ 1075 \<le> 1 / 1152921504606846976" by simp
  from round_double_error [OF assms, unfolded p53] eta show ?thesis by linarith
qed

lemma double_product_error:
  assumes q: "1 \<le> q" "q < 2 ^ 50" and y: "0 \<le> y" "y \<le> 11 / 10"
  shows "0 \<le> round_double (of_int q * round_double y)"
    and "\<bar>round_double (of_int q * round_double y) - of_int q * y\<bar> \<le> 1 / 2"
    and "int_of_product q (round_double y) = Inr \<lfloor>round_double (of_int q * round_double y)\<rfloor>"
proof -
  define Q :: rat where "Q = of_int q"
  define t where "t = round_double y"
  define r where "r = round_double (Q * t)"
  have Q1: "1 \<le> Q" using q(1) by (simp add: Q_def)
  from q(2) have "q \<le> 1125899906842624" by simp
  then have "(of_int q :: rat) \<le> of_int 1125899906842624" by (simp only: of_int_le_iff)
  then have Q2: "Q \<le> 1125899906842624" by (simp add: Q_def)
  have t0: "0 \<le> t" using y(1) by (simp add: t_def round_double_nonneg)
  have "\<bar>t - y\<bar> \<le> y / 9007199254740992 + 1 / 1152921504606846976"
    unfolding t_def by (rule round_double_error_numeral [OF y(1)])
  with y(2) have te: "\<bar>t - y\<bar> \<le> 11 / 10 / 9007199254740992 + 1 / 1152921504606846976"
    by linarith
  have "Q * t - Q * y = Q * (t - y)" by (simp add: right_diff_distrib)
  then have "\<bar>Q * t - Q * y\<bar> = \<bar>Q\<bar> * \<bar>t - y\<bar>" by (simp only: abs_mult)
  also have "\<dots> = Q * \<bar>t - y\<bar>" using Q1 by simp
  also have "\<dots> \<le> 1125899906842624 * (11 / 10 / 9007199254740992 + 1 / 1152921504606846976)"
    using Q1 Q2 te by (intro mult_mono) simp_all
  also have "\<dots> \<le> 11 / 80 + 1 / 1024" by simp
  finally have ze: "\<bar>Q * t - Q * y\<bar> \<le> 11 / 80 + 1 / 1024" .
  have "Q * y \<le> 1125899906842624 * (11 / 10)"
    using Q1 Q2 y by (intro mult_mono) simp_all
  with ze have z1: "Q * t \<le> 2251799813685248" by linarith
  have z0: "0 \<le> Q * t" using Q1 t0 by simp
  have r0: "0 \<le> r" unfolding r_def by (rule round_double_nonneg [OF z0])
  have "\<bar>r - Q * t\<bar> \<le> Q * t / 9007199254740992 + 1 / 1152921504606846976"
    unfolding r_def by (rule round_double_error_numeral [OF z0])
  with z1 have re: "\<bar>r - Q * t\<bar> \<le> 1 / 4 + 1 / 1024" by linarith
  from re ze have err: "\<bar>r - Q * y\<bar> \<le> 1 / 2" by linarith
  have exact: "round_double (of_int q) = of_int q"
    using q by (intro round_double_of_int) simp_all
  have big: "(2251799813685248::rat) < 2 ^ 1024 - 2 ^ 970" by simp
  have "\<bar>Q\<bar> < 2 ^ 1024 - 2 ^ 970" using Q1 Q2 big by linarith
  then have no1: "\<not> double_overflows (of_int q)"
    by (simp only: double_overflows_def Q_def not_le)
  have "\<bar>Q * t\<bar> < 2 ^ 1024 - 2 ^ 970" using z0 z1 big by linarith
  then have no2: "\<not> double_overflows (of_int q * t)"
    by (simp only: double_overflows_def Q_def not_le)
  show "0 \<le> round_double (of_int q * round_double y)"
    using r0 by (simp only: r_def t_def Q_def)
  show "\<bar>round_double (of_int q * round_double y) - of_int q * y\<bar> \<le> 1 / 2"
    using err by (simp only: r_def t_def Q_def)
  have "int_of_product q t = Inr (py_trunc r)"
    unfolding int_of_product_def exact r_def Q_def using no1 no2 by (simp only: if_False)
  moreover have "py_trunc r = \<lfloor>r\<rfloor>" using r0 by (simp only: py_trunc_def if_True)
  ultimately show "int_of_product q (round_double y) = Inr \<lfloor>round_double (of_int q * round_double y)\<rfloor>"
    by (simp only: r_def t_def Q_def)
qed

lemma floor_near:
  fixes r x :: rat
  assumes "\<bar>r - x\<bar> \<le> 1 / 2"
  shows "\<bar>\<lfloor>r\<rfloor> - \<lfloor>x\<rfloor>\<bar> \<le> 1"
proof -
  have fx: "of_int \<lfloor>x\<rfloor> \<le> x" "x < of_int \<lfloor>x\<rfloor> + 1" by linarith+
  from assms have a: "r \<le> x + 1 / 2" "x \<le> r + 1 / 2" by linarith+
  have "r < of_int \<lfloor>x\<rfloor> + 2" using a fx by linarith
  then have "r < of_int (\<lfloor>x\<rfloor> + 2)" by simp
  then have u: "\<lfloor>r\<rfloor> < \<lfloor>x\<rfloor> + 2" by (simp only: floor_less_iff)
  have "of_int \<lfloor>x\<rfloor> - 1 \<le> r" using a fx by linarith
  then have "of_int (\<lfloor>x\<rfloor> - 1) \<le> r" by simp
  then have l: "\<lfloor>x\<rfloor> - 1 \<le> \<lfloor>r\<rfloor>" by (simp only: le_floor_iff)
  from u l show ?thesis by linarith
qed

text \<open>
  Claim C6, as the code computes it. For a quantity \<open>1 \<le> q < 2\<^sup>5\<^sup>0\<close>, a range with
  \<open>0 \<le> min \<le> max \<le> 100\<close> and any drawn percentage \<open>p\<close> in the range, the next quantity is
  \<open>q\<close> plus the truncated double-precision product \<open>q * (p / 100)\<close>; it lies in
  \<open>[q, q + \<lceil>q * max / 100\<rceil>]\<close> and is within 1 of \<open>q + \<lfloor>q * p / 100\<rfloor>\<close>. On a malformed range
  the function does not raise: it returns the truncated double product \<open>q * 1.1\<close>, which
  does not depend on the draw and is within 1 of \<open>\<lfloor>11 q / 10\<rfloor>\<close>.
\<close>

theorem next_quantity_in_range:
  assumes "1 \<le> q" and "q < 2 ^ 50"
    and "0 \<le> lo" and "lo \<le> p" and "p \<le> hi" and "hi \<le> 100"
  shows "calculate_next_quantity p q (Increase lo hi) =
           Inr (q + \<lfloor>round_double (of_int q * round_double (p / 100))\<rfloor>)
       \<and> q \<le> q + \<lfloor>round_double (of_int q * round_double (p / 100))\<rfloor>
       \<and> q + \<lfloor>round_double (of_int q * round_double (p / 100))\<rfloor> \<le> q + \<lceil>of_int q * hi / 100\<rceil>
       \<and> \<bar>(q + \<lfloor>round_double (of_int q * round_double (p / 100))\<rfloor>) - (q + \<lfloor>of_int q * p / 100\<rfloor>)\<bar> \<le> 1
       \<and> calculate_next_quantity p q Malformed =
           Inr \<lfloor>round_double (of_int q * round_double (11 / 10))\<rfloor>
       \<and> \<bar>\<lfloor>round_double (of_int q * round_double (11 / 10))\<rfloor> - \<lfloor>of_int q * (11::rat) / 10\<rfloor>\<bar> \<le> 1"
proof -
  define r where "r = round_double (of_int q * round_double (p / 100))"
  define w where "w = round_double (of_int q * round_double (11 / 10))"
  have y: "0 \<le> p / 100" "p / 100 \<le> 11 / 10"
    using assms(3-6) by simp_all
  note main = double_product_error [OF assms(1,2) y, folded r_def]
  have y': "(0::rat) \<le> 11 / 10" "(11::rat) / 10 \<le> 11 / 10" by simp_all
  note fb = double_product_error [OF assms(1,2) y', folded w_def]
  have c1: "calculate_next_quantity p q (Increase lo hi) = Inr (q + \<lfloor>r\<rfloor>)"
    by (simp add: calculate_next_quantity_def main(3))
  have c2: "0 \<le> \<lfloor>r\<rfloor>" using main(1) by simp
  have "of_int q * (p / 100) \<le> of_int q * (hi / 100)"
    using assms(1,5) by (intro mult_left_mono) simp_all
  also have "\<dots> = of_int q * hi / 100" by simp
  also have "\<dots> \<le> of_int \<lceil>of_int q * hi / 100\<rceil>"
    by (rule le_of_int_ceiling)
  finally have up: "of_int q * (p / 100) \<le> of_int \<lceil>of_int q * hi / 100\<rceil>" .
  have "r < of_int \<lceil>of_int q * hi / 100\<rceil> + 1"
    using main(2) up by linarith
  then have "r < of_int (\<lceil>of_int q * hi / 100\<rceil> + 1)" by simp
  then have "\<lfloor>r\<rfloor> < \<lceil>of_int q * hi / 100\<rceil> + 1" by (simp only: floor_less_iff)
  then have c3: "\<lfloor>r\<rfloor> \<le> \<lceil>of_int q * hi / 100\<rceil>" by simp
  have c4: "\<bar>\<lfloor>r\<rfloor> - \<lfloor>of_int q * p / 100\<rfloor>\<bar> \<le> 1"
    using floor_near [OF main(2)] by simp
  have c5: "calculate_next_quantity p q Malformed = Inr \<lfloor>w\<rfloor>"
    by (simp add: calculate_next_quantity_def fallback_quantity_def fb(3))
  have c6: "\<bar>\<lfloor>w\<rfloor> - \<lfloor>of_int q * (11::rat) / 10\<rfloor>\<bar> \<le> 1"
    using floor_near [OF fb(2)] by simp
  from c1 c2 c3 c4 c5 c6 show ?thesis
    unfolding r_def w_def by simp
qed

lemma int_of_product_eqI:
  assumes "\<not> double_overflows (of_int q)" and "round_double (of_int q) = qf"
    and "\<not> double_overflows (qf * t)" and "round_double (qf * t) = r"
    and "of_int n \<le> r" and "r < of_int n + 1" and "0 \<le> n"
  shows "int_of_product q t = Inr n"
proof -
  from assms(5,7) have "0 \<le> r" by (simp add: order_trans [of 0 "of_int n" r])
  moreover have "\<lfloor>r\<rfloor> = n" using assms(5,6) by (rule floor_unique)
  ultimately show ?thesis
    using assms(1-4) by (simp add: int_of_product_def py_trunc_def)
qed

lemma round_double_29_percent: "round_double (29 / 100) = 5224175567749775 / 18014398509481984"
proof -
  have "round_double (29 / 100) = of_int 5224175567749775 * 2 powi (- 54)"
  proof (rule round_double_eqI)
    show "round_half_even (29 / 100 / 2 powi - 54) = 5224175567749775"
      by (rule round_half_even_eqI) (simp add: power_int_minus_divide)
  qed (simp_all add: power_int_minus_divide)
  then show ?thesis by (simp add: power_int_minus_divide)
qed

lemma round_double_11_tenths: "round_double (11 / 10) = 4953959590107546 / 4503599627370496"
proof -
  have "round_double (11 / 10) = of_int 4953959590107546 * 2 powi (- 52)"
  proof (rule round_double_eqI)
    show "round_half_even (11 / 10 / 2 powi - 52) = 4953959590107546"
      by (rule round_half_even_eqI) (simp add: power_int_minus_divide)
  qed (simp_all add: power_int_minus_divide)
  then show ?thesis by (simp add: power_int_minus_divide)
qed

lemma int_of_product_100_29: "int_of_product 100 (round_double (29 / 100)) = Inr 28"
proof (rule int_of_product_eqI)
  show "\<not> double_overflows (of_int 100)" by (simp add: double_overflows_def)
  show "round_double (of_int 100) = 100" using round_double_of_int [of 100] by simp
  show "\<not> double_overflows (100 * round_double (29 / 100))"
    by (simp add: round_double_29_percent double_overflows_def)
  have "round_double (100 * round_double (29 / 100)) = of_int 8162774324609023 * 2 powi (- 48)"
  proof (rule round_double_eqI)
    show "round_half_even (100 * round_double (29 / 100) / 2 powi - 48) = 8162774324609023"
      by (rule round_half_even_eqI) (simp add: round_double_29_percent power_int_minus_divide)
  qed (simp_all add: round_double_29_percent power_int_minus_divide)
  then show "round_double (100 * round_double (29 / 100)) = 8162774324609023 / 281474976710656"
    by (simp add: power_int_minus_divide)
qed simp_all

lemma int_of_product_100_fallback: "int_of_product 100 (round_double (11 / 10)) = Inr 110"
proof (rule int_of_product_eqI)
  show "\<not> double_overflows (of_int 100)" by (simp add: double_overflows_def)
  show "round_double (of_int 100) = 100" using round_double_of_int [of 100] by simp
  show "\<not> double_overflows (100 * round_double (11 / 10))"
    by (simp add: round_double_11_tenths double_overflows_def)
  have "round_double (100 * round_double (11 / 10)) = of_int 7740561859543041 * 2 powi (- 46)"
  proof (rule round_double_eqI)
    show "round_half_even (100 * round_double (11 / 10) / 2 powi - 46) = 7740561859543041"
      by (rule round_half_even_eqI) (simp add: round_double_11_tenths power_int_minus_divide)
  qed (simp_all add: round_double_11_tenths power_int_minus_divide)
  then show "round_double (100 * round_double (11 / 10)) = 7740561859543041 / 70368744177664"
    by (simp add: power_int_minus_divide)
qed simp_all

lemma int_of_product_large: "int_of_product 9007199254740995 (round_double (100 / 100)) = Inr 9007199254740996"
proof -
  have one: "round_double (100 / 100) = 1" using round_double_of_int [of 1] by simp
  have "int_of_product 9007199254740995 1 = Inr 9007199254740996"
  proof (rule int_of_product_eqI)
    show "\<not> double_overflows (of_int 9007199254740995)" by (simp add: double_overflows_def)
    have "round_double (of_int 9007199254740995) = of_int 4503599627370498 * 2 powi 1"
    proof (rule round_double_eqI)
      show "round_half_even (of_int 9007199254740995 / 2 powi 1) = 4503599627370498"
        using round_half_even_tie [of "9007199254740995 / 2" 4503599627370497] by simp
    qed simp_all
    then show "round_double (of_int 9007199254740995) = 9007199254740996" by simp
    show "\<not> double_overflows (9007199254740996 * 1)" by (simp add: double_overflows_def)
    have "round_double (9007199254740996 * 1) = of_int 4503599627370498 * 2 powi 1"
    proof (rule round_double_eqI)
      show "round_half_even (9007199254740996 * 1 / 2 powi 1) = 4503599627370498"
        by (rule round_half_even_eqI) simp
    qed simp_all
    then show "round_double (9007199254740996 * 1) = 9007199254740996" by simp
  qed simp_all
  with one show ?thesis by simp
qed

theorem next_quantity_in_range_witness:
  "(1::int) \<le> 100 \<and> (100::int) < 2 ^ 50 \<and> (0::rat) \<le> 10 \<and> (10::rat) \<le> 29 \<and> (29::rat) \<le> 30 \<and> (30::rat) \<le> 100
   \<and> calculate_next_quantity 29 100 (Increase 10 30) = Inr 128
   \<and> (100::int) \<le> 128
   \<and> (128::int) \<le> 100 + \<lceil>of_int 100 * (30::rat) / 100\<rceil>
   \<and> \<bar>(128::int) - (100 + \<lfloor>of_int 100 * (29::rat) / 100\<rfloor>)\<bar> \<le> 1
   \<and> calculate_next_quantity 29 100 Malformed = Inr 110"
proof -
  have h: "(1::int) \<le> 100" "(100::int) < 2 ^ 50" "(0::rat) \<le> 10" "(10::rat) \<le> 29"
    "(29::rat) \<le> 30" "(30::rat) \<le> 100"
    by simp_all
  have e: "calculate_next_quantity 29 100 (Increase 10 30) = Inr 128"
    by (simp add: calculate_next_quantity_def int_of_product_100_29)
  note t = next_quantity_in_range [OF h]
  from t e have v: "\<lfloor>round_double (of_int 100 * round_double (29 / 100))\<rfloor> = 28" by simp
  from t have f: "calculate_next_quantity 29 100 Malformed = Inr 110"
    by (simp add: calculate_next_quantity_def fallback_quantity_def int_of_product_100_fallback)
  from t have "(100::int) + \<lfloor>round_double (of_int 100 * round_double (29 / 100))\<rfloor> \<le> 100 + \<lceil>of_int 100 * (30::rat) / 100\<rceil>"
    and "\<bar>((100::int) + \<lfloor>round_double (of_int 100 * round_double (29 / 100))\<rfloor>) - (100 + \<lfloor>of_int 100 * (29::rat) / 100\<rfloor>)\<bar> \<le> 1"
    by blast+
  with v have "(128::int) \<le> 100 + \<lceil>of_int 100 * (30::rat) / 100\<rceil>"
    and "\<bar>(128::int) - (100 + \<lfloor>of_int 100 * (29::rat) / 100\<rfloor>)\<bar> \<le> 1"
    by simp_all
  with h e f show ?thesis by simp
qed

text \<open>
  Claim C6 as stated fails on the code. With \<open>q = 100\<close> and the range \<open>[29, 29]\<close> the draw
  is \<open>29.0\<close>; the double nearest \<open>0.29\<close> times 100 rounds to \<open>28.999999999999996\<close>, so the
  code returns 128 and not \<open>100 + \<lfloor>100 * 29 / 100\<rfloor> = 129\<close>. With \<open>q = 2\<^sup>5\<^sup>3 + 3\<close> and the range
  \<open>[100, 100]\<close> the conversion of \<open>q\<close> to a double rounds up to \<open>2\<^sup>5\<^sup>3 + 4\<close>, and the result
  \<open>2 q + 1\<close> exceeds \<open>q + \<lceil>q * 100 / 100\<rceil> = 2 q\<close>.
\<close>

theorem next_quantity_counterexample:
  "calculate_next_quantity 29 100 (Increase 29 29) = Inr 128
   \<and> (100::int) + \<lfloor>of_int 100 * (29::rat) / 100\<rfloor> = 129
   \<and> calculate_next_quantity 100 9007199254740995 (Increase 100 100) = Inr 18014398509481991
   \<and> (9007199254740995::int) + \<lceil>of_int 9007199254740995 * (100::rat) / 100\<rceil> = 18014398509481990"
proof -
  have "calculate_next_quantity 29 100 (Increase 29 29) = Inr 128"
    by (simp add: calculate_next_quantity_def int_of_product_100_29)
  moreover have "calculate_next_quantity 100 9007199254740995 (Increase 100 100) = Inr 18014398509481991"
    by (simp only: calculate_next_quantity_def increase_range.case int_of_product_large sum.case) simp
  ultimately show ?thesis by simp
qed

section \<open>The scheduler tick\<close>

lemma process_jobs_length: "length (fst (process_jobs e i us js)) = length js"
  by (induction js arbitrary: i us) (simp_all add: case_prod_beta)

lemma process_job_stopped:
  "stopped j \<Longrightarrow> process_job e i us j = (j, us, [])"
  by (simp add: process_job_def try_job_def)

lemma process_jobs_nth:
  "k < length js \<Longrightarrow>
   \<exists>us'. fst (process_jobs e i us js) ! k = fst (process_job e (i + k) us' (js ! k))"
proof (induction js arbitrary: i us k)
  case Nil
  then show ?case by simp
next
  case (Cons j js)
  show ?case
  proof (cases k)
    case 0
    then have "fst (process_jobs e i us (j # js)) ! k = fst (process_job e (i + k) us ((j # js) ! k))"
      by (simp add: case_prod_beta)
    then show ?thesis by blast
  next
    case (Suc k')
    with Cons.prems have "k' < length js" by simp
    from Cons.IH [OF this, of "Suc i" "fst (snd (process_job e i us j))"]
    obtain us' where "fst (process_jobs e (Suc i) (fst (snd (process_job e i us j))) js) ! k' =
        fst (process_job e (Suc i + k') us' (js ! k'))"
      by blast
    with Suc have "fst (process_jobs e i us (j # js)) ! k = fst (process_job e (i + k) us' ((j # js) ! k))"
      by (simp add: case_prod_beta)
    then show ?thesis by blast
  qed
qed

text \<open>
  Claim C4. A job with \<open>stopped = true\<close> comes out of a scheduler tick exactly as it went
  in, at the same list position: its quantity, \<open>next_run\<close> and order history (and every
  other field) are unchanged, whatever the time, the panel and the other jobs are.
\<close>

theorem stopped_job_unchanged_by_tick:
  assumes "k < length jobs" and "stopped (jobs ! k)"
  shows "length (fst (tick e (jobs, us))) = length jobs
       \<and> fst (tick e (jobs, us)) ! k = jobs ! k
       \<and> quantity (fst (tick e (jobs, us)) ! k) = quantity (jobs ! k)
       \<and> next_run (fst (tick e (jobs, us)) ! k) = next_run (jobs ! k)
       \<and> orders (fst (tick e (jobs, us)) ! k) = orders (jobs ! k)"
proof -
  from process_jobs_nth [OF assms(1), of e 0 us]
  obtain us' where "fst (process_jobs e 0 us jobs) ! k = fst (process_job e (0 + k) us' (jobs ! k))"
    by blast
  with assms(2) have "fst (process_jobs e 0 us jobs) ! k = jobs ! k"
    by (simp add: process_job_stopped)
  then show ?thesis
    by (simp add: tick_def process_jobs_length)
qed

theorem stopped_job_unchanged_by_tick_witness:
  "(1::nat) < length tick_jobs \<and> stopped (tick_jobs ! 1)
   \<and> is_due (now (env_at 2000 accepted (25 / 2))) (tick_jobs ! 1)
   \<and> length (fst (tick (env_at 2000 accepted (25 / 2)) (tick_jobs, users0))) = 2
   \<and> fst (tick (env_at 2000 accepted (25 / 2)) (tick_jobs, users0)) ! 1 = tick_jobs ! 1"
proof -
  have h: "(1::nat) < length tick_jobs" "stopped (tick_jobs ! 1)"
    by (simp_all add: tick_jobs_def stopped_job_def)
  have d: "is_due (now (env_at 2000 accepted (25 / 2))) (tick_jobs ! 1)"
    by (simp add: tick_jobs_def is_due_def env_at_def)
  have l: "length tick_jobs = 2" by (simp add: tick_jobs_def)
  from stopped_job_unchanged_by_tick [OF h, of "env_at 2000 accepted (25 / 2)" users0] h d l
  show ?thesis by simp
qed

lemma round_double_eighth: "round_double (1 / 8) = 1 / 8"
proof -
  have "round_double (1 / 8) = of_int 4503599627370496 * 2 powi (- 55)"
  proof (rule round_double_eqI)
    show "round_half_even (1 / 8 / 2 powi - 55) = 4503599627370496"
      by (rule round_half_even_eqI) (simp add: power_int_minus_divide)
  qed (simp_all add: power_int_minus_divide)
  then show ?thesis by (simp add: power_int_minus_divide)
qed

lemma next_quantity_100_eighth: "calculate_next_quantity (25 / 2) 100 (Increase 10 20) = Inr 112"
proof -
  have p: "(25::rat) / 2 / 100 = 1 / 8" by simp
  have "int_of_product 100 (round_double (1 / 8)) = Inr 12"
  proof (rule int_of_product_eqI)
    show "\<not> double_overflows (of_int 100)" by (simp add: double_overflows_def)
    show "round_double (of_int 100) = 100" using round_double_of_int [of 100] by simp
    show "\<not> double_overflows (100 * round_double (1 / 8))"
      by (simp add: round_double_eighth double_overflows_def)
    have "round_double (100 * round_double (1 / 8)) = of_int 7036874417766400 * 2 powi (- 49)"
    proof (rule round_double_eqI)
      show "round_half_even (100 * round_double (1 / 8) / 2 powi - 49) = 7036874417766400"
        by (rule round_half_even_eqI) (simp add: round_double_eighth power_int_minus_divide)
    qed (simp_all add: round_double_eighth power_int_minus_divide)
    then show "round_double (100 * round_double (1 / 8)) = 25 / 2"
      by (simp add: power_int_minus_divide)
  qed simp_all
  then show ?thesis by (simp add: calculate_next_quantity_def p)
qed

lemma next_quantity_zero_growth: "calculate_next_quantity 0 100 (Increase 0 0) = Inr 100"
proof -
  have "int_of_product 100 (round_double (0 / 100)) = Inr 0"
  proof (rule int_of_product_eqI)
    show "\<not> double_overflows (of_int 100)" by (simp add: double_overflows_def)
    show "round_double (of_int 100) = 100" using round_double_of_int [of 100] by simp
    show "\<not> double_overflows (100 * round_double (0 / 100))"
      by (simp add: round_double_def double_overflows_def)
    show "round_double (100 * round_double (0 / 100)) = 0"
      by (simp add: round_double_def)
  qed simp_all
  then show ?thesis by (simp add: calculate_next_quantity_def)
qed

text \<open>
  Claim C1, at a paused job. The claim asks that a tick leave a job with \<open>paused = true\<close>
  and \<open>stopped = false\<close> unchanged and dispatch nothing for it. The scheduler never reads
  \<open>paused\<close>: a paused job that is due is fired like any other. Here the paused job has
  quantity 100, range 10 to 20 per cent and frequency 5, it is due at time 2000, and the
  draw is 12.5: one order of 100 is placed and recorded, the quantity becomes 112 and
  \<open>next_run\<close> becomes 2300.
\<close>

theorem paused_job_is_fired:
  "paused paused_job = Some True \<and> \<not> stopped paused_job
   \<and> tick (env_at 2000 accepted (25 / 2)) ([paused_job], users0) =
       ([paused_job\<lparr>orders := [accepted_info 100], quantity := 112, next_run := 2300\<rparr>],
        [''alice'' \<mapsto> [accepted_info 100]],
        [(''job_a'', 100)])"
  by (simp add: tick_def process_job_def try_job_def debug_info_def fire_def order_info_of_def
      is_due_def env_at_def users0_def paused_job_def job0_def accepted_info_def ts0_def
      next_quantity_100_eighth Let_def)

lemma try_job_keeps_flags:
  "error_count (job_after (try_job e i us j)) = error_count j
   \<and> stopped (job_after (try_job e i us j)) = stopped j"
  by (simp add: try_job_def fire_def Let_def split: option.splits sum.splits)

lemma try_job_stopped: "stopped j \<Longrightarrow> raised (try_job e i us j) = None"
  by (simp add: try_job_def)

lemma try_job_panel_independent:
  "raised (try_job (e\<lparr>panel := f\<rparr>) i us j) = raised (try_job e i us j)"
  by (simp add: try_job_def fire_def debug_info_def Let_def order_info_of_def
      split: option.splits sum.splits)

text \<open>
  Claim C2, as the code has it. The error count of a job grows by one each time the
  handling of the job raises an exception, and is never reset. When the handling raises
  and the job has already counted five errors or more (the sixth counted exception), the
  scheduler sets \<open>stopped\<close> and records the reason; with fewer counted errors the job
  stays as it is but for the count. On every later tick a stopped job is returned
  unchanged and no order is placed for it. Whether the handling raises does not depend on
  the panel's reply: a refused order is a value, raises nothing, and leaves \<open>error_count\<close>
  and \<open>stopped\<close> unchanged. Counting past five errors is the only way in which a tick
  turns \<open>stopped\<close> from false to true.
\<close>

theorem error_threshold_stops_job:
  "(raised (try_job e i us j) = Some x \<longrightarrow>
      error_count (fst (process_job e i us j)) = Some (errors_so_far j + 1)
      \<and> (stopped (fst (process_job e i us j)) \<longleftrightarrow> 5 \<le> errors_so_far j)
      \<and> (5 \<le> errors_so_far j \<longrightarrow>
           stopped_reason (fst (process_job e i us j)) = Some (''Too many errors: '' @ str_error x)))
   \<and> (raised (try_job e i us j) = None \<longrightarrow>
        error_count (fst (process_job e i us j)) = error_count j
        \<and> stopped (fst (process_job e i us j)) = stopped j)
   \<and> raised (try_job (e\<lparr>panel := f\<rparr>) i us j) = raised (try_job e i us j)
   \<and> (stopped j \<longrightarrow> process_job e' i' us' j = (j, us', []))
   \<and> (\<not> stopped j \<and> stopped (fst (process_job e i us j)) \<longrightarrow>
        raised (try_job e i us j) \<noteq> None \<and> 5 \<le> errors_so_far j)"
proof -
  note k = try_job_keeps_flags [of e i us j]
  have a: "error_count (fst (process_job e i us j)) = Some (errors_so_far j + 1)
      \<and> (stopped (fst (process_job e i us j)) \<longleftrightarrow> 5 \<le> errors_so_far j)
      \<and> (5 \<le> errors_so_far j \<longrightarrow>
           stopped_reason (fst (process_job e i us j)) = Some (''Too many errors: '' @ str_error x))"
    if r: "raised (try_job e i us j) = Some x"
  proof -
    from r have ns: "\<not> stopped j" using try_job_stopped [of j e i us] by auto
    from r have p: "fst (process_job e i us j) = on_error x (job_after (try_job e i us j))"
      by (simp add: process_job_def Let_def)
    show ?thesis
      using k ns unfolding p
      by (auto simp: on_error_def errors_so_far_def Let_def split: option.splits)
  qed
  have b: "error_count (fst (process_job e i us j)) = error_count j
        \<and> stopped (fst (process_job e i us j)) = stopped j"
    if r: "raised (try_job e i us j) = None"
    using k r by (simp add: process_job_def Let_def)
  have c: "raised (try_job (e\<lparr>panel := f\<rparr>) i us j) = raised (try_job e i us j)"
    by (rule try_job_panel_independent)
  have d: "stopped j \<longrightarrow> process_job e' i' us' j = (j, us', [])"
    by (simp add: process_job_stopped)
  have s: "raised (try_job e i us j) \<noteq> None \<and> 5 \<le> errors_so_far j"
    if "\<not> stopped j" "stopped (fst (process_job e i us j))"
  proof (cases "raised (try_job e i us j)")
    case None
    with b that show ?thesis by simp
  next
    case (Some y)
    have "error_count (fst (process_job e i us j)) = Some (errors_so_far j + 1)
      \<and> (stopped (fst (process_job e i us j)) \<longleftrightarrow> 5 \<le> errors_so_far j)"
    proof -
      from Some have ns: "\<not> stopped j" using that(1) by simp
      from Some have p: "fst (process_job e i us j) = on_error y (job_after (try_job e i us j))"
        by (simp add: process_job_def Let_def)
      show ?thesis
        using k ns unfolding p
        by (auto simp: on_error_def errors_so_far_def Let_def split: option.splits)
    qed
    with Some that show ?thesis by simp
  qed
  from a b c d s show ?thesis by blast
qed

theorem error_threshold_stops_job_witness:
  "raised (try_job (env_at 2000 accepted (25 / 2)) 0 users0 overdue_job)
     = Some (ValueError ''year 10000 is out of range'')
   \<and> errors_so_far overdue_job = 5 \<and> \<not> stopped overdue_job
   \<and> error_count (fst (process_job (env_at 2000 accepted (25 / 2)) 0 users0 overdue_job)) = Some 6
   \<and> stopped (fst (process_job (env_at 2000 accepted (25 / 2)) 0 users0 overdue_job))
   \<and> stopped_reason (fst (process_job (env_at 2000 accepted (25 / 2)) 0 users0 overdue_job))
       = Some ''Too many errors: year 10000 is out of range''
   \<and> raised (try_job (env_at 2000 refused 0) 0 users0 failing_job) = None
   \<and> error_count (fst (process_job (env_at 2000 refused 0) 0 users0 failing_job)) = None
   \<and> \<not> stopped (fst (process_job (env_at 2000 refused 0) 0 users0 failing_job))
   \<and> stopped stopped_job
   \<and> process_job (env_at 3000 accepted (25 / 2)) 0 users0 stopped_job = (stopped_job, users0, [])"
proof -
  have r1: "raised (try_job (env_at 2000 accepted (25 / 2)) 0 users0 overdue_job)
     = Some (ValueError ''year 10000 is out of range'')"
    by (simp add: try_job_def debug_info_def env_at_def overdue_job_def job0_def)
  have r2: "raised (try_job (env_at 2000 refused 0) 0 users0 failing_job) = None"
    by (simp add: try_job_def debug_info_def fire_def env_at_def failing_job_def job0_def is_due_def
        users0_def next_quantity_zero_growth Let_def)
  have f: "errors_so_far overdue_job = 5" "\<not> stopped overdue_job" "stopped stopped_job"
    "error_count failing_job = None" "\<not> stopped failing_job"
    by (simp_all add: errors_so_far_def overdue_job_def stopped_job_def failing_job_def job0_def)
  note t1 = error_threshold_stops_job [of "env_at 2000 accepted (25 / 2)" 0 users0 overdue_job
      "ValueError ''year 10000 is out of range''" "\<lambda>url key sid lnk q. refused"
      "env_at 3000 accepted (25 / 2)" 0 users0]
  note t2 = error_threshold_stops_job [of "env_at 2000 refused 0" 0 users0 failing_job
      "ValueError ''year 10000 is out of range''" "\<lambda>url key sid lnk q. refused"
      "env_at 3000 accepted (25 / 2)" 0 users0]
  note t3 = error_threshold_stops_job [of "env_at 2000 refused 0" 0 users0 stopped_job
      "ValueError ''year 10000 is out of range''" "\<lambda>url key sid lnk q. refused"
      "env_at 3000 accepted (25 / 2)" 0 users0]
  from t1 r1 f have a: "error_count (fst (process_job (env_at 2000 accepted (25 / 2)) 0 users0 overdue_job)) = Some 6"
    "stopped (fst (process_job (env_at 2000 accepted (25 / 2)) 0 users0 overdue_job))"
    "stopped_reason (fst (process_job (env_at 2000 accepted (25 / 2)) 0 users0 overdue_job))
       = Some ''Too many errors: year 10000 is out of range''"
    by simp_all
  from t2 r2 f have b: "error_count (fst (process_job (env_at 2000 refused 0) 0 users0 failing_job)) = None"
    "\<not> stopped (fst (process_job (env_at 2000 refused 0) 0 users0 failing_job))"
    by simp_all
  from t3 f have c: "process_job (env_at 3000 accepted (25 / 2)) 0 users0 stopped_job = (stopped_job, users0, [])"
    by blast
  from r1 r2 f a b c show ?thesis by blast
qed

text \<open>
  Claim C2 as stated fails on the code. A job whose order is refused by the panel on six
  fires in a row (at times 1000, 1300, ..., 2500, each when the job is due) is not
  stopped and has no error counted: every refusal is recorded in the history and the job
  is rescheduled. On the seventh tick, at time 2800, a seventh order is placed.
\<close>

theorem six_refused_orders_counterexample:
  "run_ticks six_refusals ([failing_job], users0) =
     ([failing_job\<lparr>orders := replicate 6 (refused_info 100), next_run := 2800\<rparr>],
      [''alice'' \<mapsto> replicate 6 (refused_info 100)],
      replicate 6 (''job_a'', 100))
   \<and> \<not> stopped (failing_job\<lparr>orders := replicate 6 (refused_info 100), next_run := 2800\<rparr>)
   \<and> error_count (failing_job\<lparr>orders := replicate 6 (refused_info 100), next_run := 2800\<rparr>) = None
   \<and> order (o_response (refused_info 100)) = None
   \<and> snd (snd (tick (env_at 2800 refused 0)
        ([failing_job\<lparr>orders := replicate 6 (refused_info 100), next_run := 2800\<rparr>],
         [''alice'' \<mapsto> replicate 6 (refused_info 100)]))) = [(''job_a'', 100)]"
  by (simp add: six_refusals_def tick_def process_job_def try_job_def debug_info_def fire_def
      order_info_of_def is_due_def env_at_def users0_def failing_job_def job0_def refused_info_def
      refused_def ts0_def next_quantity_zero_growth Let_def numeral_eq_Suc)

end
